theory Spec2Isabelle
  imports Main
begin

section \<open>Values shared by the controllers\<close>

text \<open>
  A value thrown by a callback, a rejected promise or a failed property access.
  The controllers never inspect it; \<open>TokenBalancesController\<close> stores it.
\<close>

datatype error = Thrown string

text \<open>
  A JavaScript number as far as token ids need it: an integer, or \<open>NaN\<close>, which
  \<open>Number\<close> returns for a string that is no numeral. Strict equality \<open>===\<close> never
  holds for \<open>NaN\<close>. On strings \<open>===\<close> is equality of the strings.
\<close>

datatype number = NaN | Num int

definition strictEquals :: "number \<Rightarrow> number \<Rightarrow> bool" where
  "strictEquals a b = (a \<noteq> NaN \<and> b \<noteq> NaN \<and> a = b)"

text \<open>
  The property key of an array index: its decimal numeral. \<open>Object.entries\<close> of an
  array pairs every element with this key.
\<close>

fun ToString :: "nat \<Rightarrow> string" where
  "ToString n =
     (if n < 10 then [''0123456789'' ! n]
      else ToString (n div 10) @ [''0123456789'' ! (n mod 10)])"

declare ToString.simps [simp del]

definition Object_entries :: "'a list \<Rightarrow> (string \<times> 'a) list" where
  "Object_entries xs = zip (map ToString [0..<length xs]) xs"

text \<open>
  \<open>key in xs\<close> for an array \<open>xs\<close>: true for the key of an index below the length, for
  \<open>length\<close>, and for the names the array inherits from its prototypes, which the
  parameter \<open>inherited\<close> decides.
\<close>

definition hasProperty :: "(string \<Rightarrow> bool) \<Rightarrow> string \<Rightarrow> 'a list \<Rightarrow> bool" where
  "hasProperty inherited key xs =
     (key \<in> set (map ToString [0..<length xs]) \<or> key = ''length'' \<or> inherited key)"

text \<open>
  \<open>Token\<close> (declared in \<open>TokenRatesController\<close>): the fields the two controllers
  read or write. \<open>balanceError\<close> is \<open>None\<close> for \<open>null\<close> or an absent field.
\<close>

record Token =
  address :: string
  decimals :: nat
  symbol :: string
  balanceError :: "error option"

section \<open>TokenBalancesController\<close>

text \<open>
  An entry of \<open>contractBalances\<close>: the big number a fetch returned, or the JavaScript
  number that \<open>updateBalances\<close> stores after a failed fetch.
\<close>

datatype balance = BN int | JsNumber int

record TokenBalancesConfig =
  interval :: nat
  tokens :: "Token list"
  disabled :: bool

record TokenBalancesController =
  config :: TokenBalancesConfig
  contractBalances :: "string \<rightharpoonup> balance"
  selectedAddress :: string

text \<open>
  The body of the loop \<open>for (const i in tokens)\<close> of \<open>updateBalances\<close>: the callback
  \<open>getBalanceOfAssetContract\<close> is the parameter \<open>getBalance\<close>, which either throws
  (\<open>Inl\<close>) or returns the balance. The tokens are returned with \<open>balanceError\<close>
  rewritten, as the source mutates \<open>tokens[i]\<close> in place.
\<close>

fun updateBalancesLoop ::
  "(string \<Rightarrow> string \<Rightarrow> error + int) \<Rightarrow> string \<Rightarrow> Token list \<Rightarrow> (string \<rightharpoonup> balance)
    \<Rightarrow> Token list \<times> (string \<rightharpoonup> balance)" where
  "updateBalancesLoop getBalance sel [] newContractBalances = ([], newContractBalances)"
| "updateBalancesLoop getBalance sel (t # ts) newContractBalances =
     (case getBalance (Token.address t) sel of
        Inr b \<Rightarrow>
          (let (ts', m) = updateBalancesLoop getBalance sel ts
                            (newContractBalances(Token.address t \<mapsto> BN b))
           in (t\<lparr>balanceError := None\<rparr> # ts', m))
      | Inl e \<Rightarrow>
          (let (ts', m) = updateBalancesLoop getBalance sel ts
                            (newContractBalances(Token.address t \<mapsto> JsNumber 0))
           in (t\<lparr>balanceError := Some e\<rparr> # ts', m)))"

definition updateBalances ::
  "(string \<Rightarrow> string \<Rightarrow> error + int) \<Rightarrow> TokenBalancesController \<Rightarrow> TokenBalancesController" where
  "updateBalances getBalance c =
     (if TokenBalancesConfig.disabled (TokenBalancesController.config c) then c
      else
        (let (ts', m) = updateBalancesLoop getBalance (TokenBalancesController.selectedAddress c)
                          (TokenBalancesConfig.tokens (TokenBalancesController.config c)) Map.empty
         in c\<lparr>TokenBalancesController.config :=
               (TokenBalancesController.config c)\<lparr>TokenBalancesConfig.tokens := ts'\<rparr>,
             contractBalances := m\<rparr>))"

text \<open>What \<open>updateBalances\<close> records for one token: the map entry and the error flag.\<close>

definition recordedBalance :: "(string \<Rightarrow> string \<Rightarrow> error + int) \<Rightarrow> string \<Rightarrow> string \<Rightarrow> balance" where
  "recordedBalance getBalance sel a =
     (case getBalance a sel of Inl e \<Rightarrow> JsNumber 0 | Inr b \<Rightarrow> BN b)"

definition recordedError :: "(string \<Rightarrow> string \<Rightarrow> error + int) \<Rightarrow> string \<Rightarrow> string \<Rightarrow> error option" where
  "recordedError getBalance sel a =
     (case getBalance a sel of Inl e \<Rightarrow> Some e | Inr b \<Rightarrow> None)"

section \<open>ComposableController\<close>

text \<open>A child controller: its \<open>name\<close> and its current \<open>state\<close>.\<close>

record 's ChildController =
  name :: string
  state :: 's

text \<open>
  The composing controller: the array of its children, and its own state, an object
  that is read here as a map from property keys to child states.
\<close>

record 's ComposableController =
  controllers :: "'s ChildController list"
  state :: "string \<rightharpoonup> 's"

text \<open>
  The initial state handed to \<open>super\<close>: \<open>Object.entries(controllers).reduce\<close>
  stores the state of every child under the key that \<open>Object.entries\<close> pairs it with.
\<close>

definition initialState :: "'s ChildController list \<Rightarrow> (string \<rightharpoonup> 's)" where
  "initialState cs =
     fold (\<lambda>(name, controller) state. state(name \<mapsto> ChildController.state controller))
       (Object_entries cs) Map.empty"

definition ComposableController_new :: "'s ChildController list \<Rightarrow> 's ComposableController" where
  "ComposableController_new cs = \<lparr>controllers = cs, ComposableController.state = initialState cs\<rparr>"

text \<open>
  Modelled from the spec: \<open>update\<close> of \<open>BaseController\<close>, which is not among the
  sources. Called with one entry, it "replaces that child's entry" of the state and
  leaves the other entries as they are.
\<close>

definition update :: "string \<Rightarrow> 's \<Rightarrow> (string \<rightharpoonup> 's) \<Rightarrow> (string \<rightharpoonup> 's)" where
  "update key s st = st(key \<mapsto> s)"

text \<open>
  The child at position \<open>k\<close> publishes the state \<open>s\<close>: the child holds it from then
  on, and the listener subscribed by the constructor runs \<open>update({ [name]: state })\<close>
  with the name of that child. There is no child outside the array.
\<close>

definition childPublishes :: "nat \<Rightarrow> 's \<Rightarrow> 's ComposableController \<Rightarrow> 's ComposableController" where
  "childPublishes k s cc =
     (if k < length (controllers cc)
      then cc\<lparr>controllers := (controllers cc)[k := (controllers cc ! k)\<lparr>ChildController.state := s\<rparr>],
              ComposableController.state :=
                update (ChildController.name (controllers cc ! k)) s (ComposableController.state cc)\<rparr>
      else cc)"

text \<open>The getter \<open>flatState\<close>: one entry per pair of \<open>Object.entries(this.controllers)\<close>.\<close>

definition flatState :: "'s ComposableController \<Rightarrow> (string \<rightharpoonup> 's)" where
  "flatState cc =
     fold (\<lambda>(name, controller) flat. flat(name \<mapsto> ChildController.state controller))
       (Object_entries (controllers cc)) Map.empty"

section \<open>AssetsDetectionController\<close>

subsection \<open>Data\<close>

text \<open>An entry of the contract metadata table \<open>contractMap\<close>.\<close>

record ContractMetadata =
  erc20 :: bool
  decimals :: nat
  symbol :: string

text \<open>
  \<open>Collectible\<close> (declared in \<open>AssetsController\<close>): the two fields the detection
  controller reads.
\<close>

record Collectible =
  address :: string
  tokenId :: number

record CollectibleInformation =
  description :: string
  image :: string
  name :: string

text \<open>
  \<open>ApiCollectibleResponse\<close>; \<open>asset_contract\<close> holds the \<open>address\<close> entry of the
  nested object, the only one the controller reads.
\<close>

record ApiCollectibleResponse =
  token_id :: string
  image_original_url :: string
  name :: string
  description :: string
  asset_contract :: string

record AssetsDetectionConfig =
  interval :: nat
  networkType :: string
  selectedAddress :: string
  tokens :: "Token list"
  disabled :: bool

record AssetsState =
  collectibles :: "Collectible list"
  ignoredCollectibles :: "Collectible list"
  ignoredTokens :: "Token list"

record AssetsDetectionController =
  config :: AssetsDetectionConfig
  assetsState :: AssetsState
  handle :: "nat option"

text \<open>
  What a fetch resolves to: a response whose \<open>json()\<close> either throws or yields a body;
  of the body only \<open>assets\<close> is read, \<open>None\<close> when the body has no such entry.
\<close>

datatype response = Response "error + ApiCollectibleResponse list option"

text \<open>
  Everything the controller reaches outside itself, as parameters:
  \<^item> \<open>toChecksumAddress\<close> of ethereumjs-util and the conversion \<open>Number\<close>, taken as
    total functions on strings;
  \<^item> the table \<open>contractMap\<close> in the order its keys are enumerated (keys distinct),
    and the property names an array inherits;
  \<^item> the callbacks \<open>getOpenSeaApiKey\<close> and \<open>getAssetContractBalancesInSingleCall\<close>
    and the helper \<open>timeoutFetch\<close> (url, then the API key header if one is sent),
    each either throwing or rejecting (\<open>Inl\<close>) or returning; a balance map is the
    list of its entries in enumeration order;
  \<^item> \<open>addCollectibleSettles i\<close>: when the promise of the \<open>addCollectible\<close> call made
    for the \<open>i\<close>-th reported item settles, and whether it resolves (\<open>True\<close>) or
    rejects. The callback \<open>removeCollectible\<close> returns nothing and is taken to return.
  Every promise is taken to settle.
\<close>

record world =
  toChecksumAddress :: "string \<Rightarrow> string"
  Number :: "string \<Rightarrow> number"
  contractMap :: "(string \<times> ContractMetadata) list"
  inheritedProperty :: "string \<Rightarrow> bool"
  getOpenSeaApiKey :: "error + string"
  timeoutFetch :: "string \<Rightarrow> string option \<Rightarrow> error + response"
  getAssetContractBalancesInSingleCall :: "string \<Rightarrow> string list \<Rightarrow> error + (string \<times> int) list"
  addCollectibleSettles :: "nat \<Rightarrow> nat \<times> bool"

text \<open>
  What a pass does that can be seen from outside: the calls of the store's mutators,
  and the settling of the promises that \<open>addCollectible\<close> returned. A pass is modelled
  by the list of these events in the order they happen.
\<close>

datatype event =
    AddTokens "Token list"
  | AddCollectible string number CollectibleInformation bool
  | AddCollectibleResolved nat
  | AddCollectibleRejected nat
  | RemoveCollectible string number

fun isRemoveCollectible :: "event \<Rightarrow> bool" where
  "isRemoveCollectible (RemoveCollectible a n) = True"
| "isRemoveCollectible e = False"

fun isAddCollectible :: "event \<Rightarrow> bool" where
  "isAddCollectible (AddCollectible a n info d) = True"
| "isAddCollectible e = False"

subsection \<open>Gates and error handling\<close>

text \<open>
  Modelled from the spec: \<open>safelyExecute\<close> of the module \<open>util\<close>, which is not among
  the sources. It runs the operation and swallows the exception that ends it
  ("nothing in this core is treated as fatal", "no error is surfaced synchronously to
  a caller"): what remains is what the operation did before.
\<close>

definition safelyExecute :: "event list \<times> error option \<Rightarrow> event list" where
  "safelyExecute operation = fst operation"

definition MAINNET :: string where
  "MAINNET = ''mainnet''"

definition isMainnet :: "AssetsDetectionController \<Rightarrow> bool" where
  "isMainnet c =
     (if AssetsDetectionConfig.networkType (config c) \<noteq> MAINNET
         \<or> AssetsDetectionConfig.disabled (config c)
      then False else True)"

subsection \<open>The token pass\<close>

text \<open>
  The candidates: every ERC-20 address \<open>address\<close> of the table for which
  \<open>address in tokensAddresses\<close> is false, \<open>tokensAddresses\<close> being the array of the
  tracked tokens with a non-empty address.
\<close>

definition tokensToDetect :: "world \<Rightarrow> Token list \<Rightarrow> string list" where
  "tokensToDetect w tokensAddresses =
     map fst (filter (\<lambda>(address, contract).
                 ContractMetadata.erc20 contract
                 \<and> \<not> hasProperty (inheritedProperty w) address tokensAddresses)
               (contractMap w))"

definition ignoredToken :: "world \<Rightarrow> Token list \<Rightarrow> string \<Rightarrow> Token option" where
  "ignoredToken w ignoredTs tokenAddress =
     (if ignoredTs \<noteq> []
      then find (\<lambda>token. Token.address token = toChecksumAddress w tokenAddress) ignoredTs
      else None)"

text \<open>
  The loop \<open>for (const tokenAddress in balances)\<close> over the keys of the balance map.
  Reading \<open>decimals\<close> of a table entry that does not exist throws.
\<close>

fun stageTokens :: "world \<Rightarrow> Token list \<Rightarrow> string list \<Rightarrow> Token list \<Rightarrow> error + Token list" where
  "stageTokens w ignoredTs [] tokensToAdd = Inr tokensToAdd"
| "stageTokens w ignoredTs (tokenAddress # rest) tokensToAdd =
     (case ignoredToken w ignoredTs tokenAddress of
        Some ignored \<Rightarrow> stageTokens w ignoredTs rest tokensToAdd
      | None \<Rightarrow>
          (case map_of (contractMap w) tokenAddress of
             None \<Rightarrow> Inl (Thrown ''TypeError'')
           | Some contract \<Rightarrow>
               stageTokens w ignoredTs rest
                 (tokensToAdd @
                   [\<lparr>Token.address = tokenAddress,
                     decimals = ContractMetadata.decimals contract,
                     symbol = ContractMetadata.symbol contract,
                     balanceError = None\<rparr>])))"

text \<open>
  The callback that \<open>detectTokens\<close> hands to \<open>safelyExecute\<close>: the events it
  causes, and the exception that ends it, if any. Whether the promise of \<open>addTokens\<close>
  resolves changes nothing: the call is the last statement.
\<close>

definition detectTokensOperation ::
  "world \<Rightarrow> AssetsDetectionController \<Rightarrow> string list \<Rightarrow> event list \<times> error option" where
  "detectTokensOperation w c candidates =
     (case getAssetContractBalancesInSingleCall w
             (AssetsDetectionConfig.selectedAddress (config c)) candidates of
        Inl e \<Rightarrow> ([], Some e)
      | Inr balances \<Rightarrow>
          (case stageTokens w (ignoredTokens (assetsState c)) (map fst balances) [] of
             Inl e \<Rightarrow> ([], Some e)
           | Inr tokensToAdd \<Rightarrow>
               (if tokensToAdd \<noteq> [] then ([AddTokens tokensToAdd], None) else ([], None))))"

definition detectTokens :: "world \<Rightarrow> AssetsDetectionController \<Rightarrow> event list" where
  "detectTokens w c =
     (if \<not> isMainnet c then []
      else
        (let tokensAddresses =
               filter (\<lambda>token. Token.address token \<noteq> [])
                 (AssetsDetectionConfig.tokens (config c));
             candidates = tokensToDetect w tokensAddresses
         in if AssetsDetectionConfig.selectedAddress (config c) = [] then []
            else safelyExecute (detectTokensOperation w c candidates)))"

subsection \<open>The collectible pass\<close>

definition getOwnerCollectiblesApi :: "string \<Rightarrow> string" where
  "getOwnerCollectiblesApi owner =
     ''https://api.opensea.io/api/v1/assets?owner='' @ owner @ ''&limit=300''"

text \<open>
  The \<open>try\<close> block of \<open>getOwnerCollectibles\<close>: the API key is read and the request
  is sent, with the key as a header when there is one.
\<close>

definition tryFetch :: "world \<Rightarrow> string \<Rightarrow> error + response" where
  "tryFetch w api =
     (case getOpenSeaApiKey w of
        Inl e \<Rightarrow> Inl e
      | Inr openSeaApiKey \<Rightarrow>
          (if openSeaApiKey \<noteq> [] then timeoutFetch w api (Some openSeaApiKey)
           else timeoutFetch w api None))"

text \<open>
  \<open>getOwnerCollectibles\<close>: an exception of the \<open>try\<close> block gives the empty list;
  reading the body is outside the block, so its exception leaves the function. The
  result is the \<open>assets\<close> entry of the body, \<open>None\<close> when there is none.
\<close>

definition getOwnerCollectibles ::
  "world \<Rightarrow> AssetsDetectionController \<Rightarrow> error + ApiCollectibleResponse list option" where
  "getOwnerCollectibles w c =
     (let api = getOwnerCollectiblesApi (AssetsDetectionConfig.selectedAddress (config c))
      in case tryFetch w api of
           Inl e \<Rightarrow> Inr (Some [])
         | Inr (Response json) \<Rightarrow>
             (case json of Inl e \<Rightarrow> Inl e | Inr assets \<Rightarrow> Inr assets))"

definition ignoredCollectible ::
  "world \<Rightarrow> Collectible list \<Rightarrow> ApiCollectibleResponse \<Rightarrow> Collectible option" where
  "ignoredCollectible w ignoredCs collectible =
     (if ignoredCs \<noteq> []
      then find (\<lambda>c. Collectible.address c = toChecksumAddress w (asset_contract collectible)
                      \<and> strictEquals (tokenId c) (Number w (token_id collectible)))
             ignoredCs
      else None)"

text \<open>The \<open>addCollectible\<close> call made for a reported item.\<close>

definition addCollectibleCall :: "world \<Rightarrow> ApiCollectibleResponse \<Rightarrow> event" where
  "addCollectibleCall w collectible =
     AddCollectible (asset_contract collectible) (Number w (token_id collectible))
       \<lparr>CollectibleInformation.description = ApiCollectibleResponse.description collectible,
        image = image_original_url collectible,
        CollectibleInformation.name = ApiCollectibleResponse.name collectible\<rparr>
       True"

text \<open>The last statement of the callback: the filter on \<open>collectiblesToRemove\<close>.\<close>

definition withoutReported ::
  "world \<Rightarrow> ApiCollectibleResponse \<Rightarrow> Collectible list \<Rightarrow> Collectible list" where
  "withoutReported w collectible collectiblesToRemove =
     filter (\<lambda>c. \<not> (strictEquals (tokenId c) (Number w (token_id collectible))
                     \<and> Collectible.address c = toChecksumAddress w (asset_contract collectible)))
       collectiblesToRemove"

text \<open>
  \<open>apiCollectibles.map(async ...)\<close> runs each callback up to its first \<open>await\<close>: for an
  ignored item that is the whole callback, filter included; for any other item the
  call of \<open>addCollectible\<close> is made and the rest of the callback waits for its promise.
  The result: the calls made, the items whose callback is waiting (with their
  positions), and \<open>collectiblesToRemove\<close>.
\<close>

fun mapCollectibles ::
  "world \<Rightarrow> Collectible list \<Rightarrow> (nat \<times> ApiCollectibleResponse) list \<Rightarrow> Collectible list
    \<Rightarrow> event list \<times> (nat \<times> ApiCollectibleResponse) list \<times> Collectible list" where
  "mapCollectibles w ignoredCs [] collectiblesToRemove = ([], [], collectiblesToRemove)"
| "mapCollectibles w ignoredCs ((i, collectible) # rest) collectiblesToRemove =
     (case ignoredCollectible w ignoredCs collectible of
        Some ignored \<Rightarrow>
          mapCollectibles w ignoredCs rest (withoutReported w collectible collectiblesToRemove)
      | None \<Rightarrow>
          (case mapCollectibles w ignoredCs rest collectiblesToRemove of
             (calls, waiting, toRemove) \<Rightarrow>
               (addCollectibleCall w collectible # calls, (i, collectible) # waiting, toRemove)))"

text \<open>
  \<open>await Promise.all\<close>: the waiting callbacks go on in the order their promises
  settle. A resolved promise lets its callback run the filter; the first rejected one
  rejects \<open>Promise.all\<close>, and the pass ends there without a list to remove.
\<close>

fun settleAdds ::
  "world \<Rightarrow> (nat \<times> ApiCollectibleResponse) list \<Rightarrow> Collectible list
    \<Rightarrow> event list \<times> Collectible list option" where
  "settleAdds w [] collectiblesToRemove = ([], Some collectiblesToRemove)"
| "settleAdds w ((i, collectible) # rest) collectiblesToRemove =
     (if snd (addCollectibleSettles w i)
      then (case settleAdds w rest (withoutReported w collectible collectiblesToRemove) of
              (settled, result) \<Rightarrow> (AddCollectibleResolved i # settled, result))
      else ([AddCollectibleRejected i], None))"

definition settlingOrder ::
  "world \<Rightarrow> (nat \<times> ApiCollectibleResponse) list \<Rightarrow> (nat \<times> ApiCollectibleResponse) list" where
  "settlingOrder w waiting = sort_key (\<lambda>(i, collectible). fst (addCollectibleSettles w i)) waiting"

definition removeCollectibleCall :: "Collectible \<Rightarrow> event" where
  "removeCollectibleCall c = RemoveCollectible (Collectible.address c) (tokenId c)"

text \<open>
  The callback that \<open>detectCollectibles\<close> hands to \<open>safelyExecute\<close>.
  \<open>collectiblesToRemove\<close> starts as the tracked collectibles; an exception of
  \<open>getOwnerCollectibles\<close>, or \<open>map\<close> on a missing \<open>assets\<close>, ends the callback
  before any call, and a rejected \<open>Promise.all\<close> ends it before the removals.
\<close>

definition detectCollectiblesOperation ::
  "world \<Rightarrow> AssetsDetectionController \<Rightarrow> event list \<times> error option" where
  "detectCollectiblesOperation w c =
     (case getOwnerCollectibles w c of
        Inl e \<Rightarrow> ([], Some e)
      | Inr None \<Rightarrow> ([], Some (Thrown ''TypeError''))
      | Inr (Some apiCollectibles) \<Rightarrow>
          (case mapCollectibles w (ignoredCollectibles (assetsState c))
                  (enumerate 0 apiCollectibles) (collectibles (assetsState c)) of
             (calls, waiting, toRemove) \<Rightarrow>
               (case settleAdds w (settlingOrder w waiting) toRemove of
                  (settled, result) \<Rightarrow>
                    (case result of
                       None \<Rightarrow> (calls @ settled, Some (Thrown ''rejected''))
                     | Some collectiblesToRemove \<Rightarrow>
                         (calls @ settled @ map removeCollectibleCall collectiblesToRemove,
                          None)))))"

definition detectCollectibles :: "world \<Rightarrow> AssetsDetectionController \<Rightarrow> event list" where
  "detectCollectibles w c =
     (if \<not> isMainnet c then []
      else if AssetsDetectionConfig.selectedAddress (config c) = [] then []
      else safelyExecute (detectCollectiblesOperation w c))"

subsection \<open>The scheduler\<close>

text \<open>
  \<open>detectAssets\<close> starts the two passes when the network gate is open. It awaits
  neither; the events of the token pass are listed first.
\<close>

definition detectAssets :: "world \<Rightarrow> AssetsDetectionController \<Rightarrow> event list" where
  "detectAssets w c =
     (if \<not> isMainnet c then [] else detectTokens w c @ detectCollectibles w c)"

text \<open>
  The timers of the host: the armed ones, each with its delay, and the next timer to
  hand out.
\<close>

record host =
  pending :: "(nat \<times> nat) list"
  fresh :: nat

definition setTimeout :: "nat \<Rightarrow> host \<Rightarrow> nat \<times> host" where
  "setTimeout delay h = (fresh h, \<lparr>pending = pending h @ [(fresh h, delay)], fresh = Suc (fresh h)\<rparr>)"

definition clearTimeout :: "nat \<Rightarrow> host \<Rightarrow> host" where
  "clearTimeout t h = h\<lparr>pending := filter (\<lambda>(t', delay). t' \<noteq> t) (pending h)\<rparr>"

text \<open>
  The first statement of \<open>poll\<close>, \<open>interval && this.configure({ interval })\<close>: an
  interval that is given and not zero becomes the configured one.
\<close>

definition configureInterval ::
  "nat option \<Rightarrow> AssetsDetectionController \<Rightarrow> AssetsDetectionController" where
  "configureInterval newInterval c =
     (case newInterval of
        None \<Rightarrow> c
      | Some i \<Rightarrow>
          if i \<noteq> 0 then c\<lparr>config := (config c)\<lparr>AssetsDetectionConfig.interval := i\<rparr>\<rparr>
          else c)"

text \<open>
  \<open>poll\<close>: the interval is configured, the timer of \<open>handle\<close> is cleared,
  \<open>detectAssets\<close> runs, and a timer is armed for the configured interval.
\<close>

definition poll ::
  "world \<Rightarrow> nat option \<Rightarrow> AssetsDetectionController \<times> host
    \<Rightarrow> (AssetsDetectionController \<times> host) \<times> event list" where
  "poll w newInterval ch =
     (case ch of (c, h) \<Rightarrow>
       (let c1 = configureInterval newInterval c;
            h1 = (case handle c1 of None \<Rightarrow> h | Some t \<Rightarrow> clearTimeout t h);
            events = detectAssets w c1
        in case setTimeout (AssetsDetectionConfig.interval (config c1)) h1 of
             (t, h2) \<Rightarrow> ((c1\<lparr>handle := Some t\<rparr>, h2), events)))"

text \<open>
  The constructor, after the configuration has been merged with the defaults: it
  takes the lists of the initial assets state and calls \<open>poll()\<close>.
\<close>

definition AssetsDetectionController_new ::
  "world \<Rightarrow> AssetsState \<Rightarrow> AssetsDetectionConfig \<Rightarrow> host
    \<Rightarrow> (AssetsDetectionController \<times> host) \<times> event list" where
  "AssetsDetectionController_new w initialAssetsState cfg h =
     poll w None (\<lparr>config = cfg, assetsState = initialAssetsState, handle = None\<rparr>, h)"

text \<open>The listener of the preferences: the account-change event.\<close>

definition onPreferencesStateChange ::
  "world \<Rightarrow> string \<Rightarrow> AssetsDetectionController \<times> host
    \<Rightarrow> (AssetsDetectionController \<times> host) \<times> event list" where
  "onPreferencesStateChange w selected ch =
     (case ch of (c, h) \<Rightarrow>
       (if selected \<noteq> AssetsDetectionConfig.selectedAddress (config c)
        then (let c1 = c\<lparr>config := (config c)\<lparr>AssetsDetectionConfig.selectedAddress := selected\<rparr>\<rparr>
              in ((c1, h), detectAssets w c1))
        else ((c, h), [])))"

text \<open>The callback of the timer \<open>t\<close>, when it fires.\<close>

definition timerFires ::
  "world \<Rightarrow> nat \<Rightarrow> AssetsDetectionController \<times> host
    \<Rightarrow> (AssetsDetectionController \<times> host) \<times> event list" where
  "timerFires w t ch =
     (case ch of (c, h) \<Rightarrow>
       (if t \<in> fst ` set (pending h)
        then poll w (Some (AssetsDetectionConfig.interval (config c))) (c, clearTimeout t h)
        else ((c, h), [])))"

section \<open>Sample collaborators and inputs\<close>

text \<open>
  Stand-ins for the two library functions, used to run the model on concrete inputs.
  \<open>upcaseHex\<close> plays \<open>toChecksumAddress\<close>: it capitalises the hexadecimal letters, as
  in the spec's example, where \<open>0xAB\<close> is the checksum form of \<open>0xab\<close>.
  \<open>decimalNumber\<close> plays \<open>Number\<close>: the value of a string of decimal digits, and
  \<open>NaN\<close> for any other string.
\<close>

definition upcaseHex :: "string \<Rightarrow> string" where
  "upcaseHex s =
     map (\<lambda>ch. case map_of (zip ''abcdef'' ''ABCDEF'') ch of Some u \<Rightarrow> u | None \<Rightarrow> ch) s"

definition decimalNumber :: "string \<Rightarrow> number" where
  "decimalNumber s =
     (if list_all (\<lambda>ch. ch \<in> set ''0123456789'') s
      then Num (int (foldl (\<lambda>n ch. 10 * n + (of_char ch - 48)) 0 s))
      else NaN)"

definition sampleRegistry :: "(string \<times> ContractMetadata) list" where
  "sampleRegistry =
     [(''0xAB'', \<lparr>erc20 = True, decimals = 18, symbol = ''AAA''\<rparr>),
      (''0xCD'', \<lparr>erc20 = True, decimals = 6, symbol = ''CCC''\<rparr>),
      (''0xEF'', \<lparr>erc20 = False, decimals = 0, symbol = ''EEE''\<rparr>)]"

text \<open>
  A world with the sample collaborators: a fetch that returns the given outcome, a
  balance call that returns the given map, and \<open>addCollectible\<close> promises that all
  resolve, a later item's promise first when \<open>reversed\<close> is set.
\<close>

definition sampleWorld ::
  "error + response \<Rightarrow> error + (string \<times> int) list \<Rightarrow> bool \<Rightarrow> world" where
  "sampleWorld fetched balances reversed =
     \<lparr>toChecksumAddress = upcaseHex,
      Number = decimalNumber,
      contractMap = sampleRegistry,
      inheritedProperty = (\<lambda>key. False),
      getOpenSeaApiKey = Inr [],
      timeoutFetch = (\<lambda>url key. fetched),
      getAssetContractBalancesInSingleCall = (\<lambda>selected candidates. balances),
      addCollectibleSettles = (\<lambda>i. (if reversed then 10 - i else i, True))\<rparr>"

definition sampleConfig :: AssetsDetectionConfig where
  "sampleConfig =
     \<lparr>interval = 180000, networkType = ''mainnet'', selectedAddress = ''0x11'',
      tokens = [], disabled = False\<rparr>"

definition sampleController ::
  "Collectible list \<Rightarrow> Collectible list \<Rightarrow> Token list \<Rightarrow> AssetsDetectionController" where
  "sampleController tracked ignoredCs ignoredTs =
     \<lparr>config = sampleConfig,
      assetsState = \<lparr>collectibles = tracked, ignoredCollectibles = ignoredCs,
                     ignoredTokens = ignoredTs\<rparr>,
      handle = None\<rparr>"

definition reported :: "string \<Rightarrow> string \<Rightarrow> ApiCollectibleResponse" where
  "reported a i =
     \<lparr>token_id = i, image_original_url = ''img'', name = ''n'', description = ''d'',
      asset_contract = a\<rparr>"

definition sampleInfo :: CollectibleInformation where
  "sampleInfo =
     \<lparr>CollectibleInformation.description = ''d'', image = ''img'',
      CollectibleInformation.name = ''n''\<rparr>"

text \<open>
  For \<open>TokenBalancesController\<close>: a balance callback that throws for every contract
  but \<open>0xAB\<close>, and a controller that tracks \<open>0xCD\<close> before \<open>0xAB\<close>.
\<close>

definition sampleGetBalance :: "string \<Rightarrow> string \<Rightarrow> error + int" where
  "sampleGetBalance a owner = (if a = ''0xAB'' then Inr 7 else Inl (Thrown ''revert''))"

definition sampleBalancesController :: TokenBalancesController where
  "sampleBalancesController =
     \<lparr>TokenBalancesController.config =
        \<lparr>TokenBalancesConfig.interval = 180000,
         TokenBalancesConfig.tokens =
           [\<lparr>Token.address = ''0xCD'', Token.decimals = 6, Token.symbol = ''CCC'',
             balanceError = None\<rparr>,
            \<lparr>Token.address = ''0xAB'', Token.decimals = 18, Token.symbol = ''AAA'',
             balanceError = None\<rparr>],
         TokenBalancesConfig.disabled = False\<rparr>,
      contractBalances = Map.empty,
      TokenBalancesController.selectedAddress = ''0x11''\<rparr>"

text \<open>Two collectibles, and a fetch that succeeds with the given reported items.\<close>

definition cAB5 :: Collectible where
  "cAB5 = \<lparr>Collectible.address = ''0xAB'', tokenId = Num 5\<rparr>"

definition cEF9 :: Collectible where
  "cEF9 = \<lparr>Collectible.address = ''0xEF'', tokenId = Num 9\<rparr>"

definition marketplaceReports :: "ApiCollectibleResponse list \<Rightarrow> error + response" where
  "marketplaceReports rs = Inr (Response (Inr (Some rs)))"

text \<open>Two tokens of the sample registry, as the token pass stages them.\<close>

definition tokAB :: Token where
  "tokAB = \<lparr>Token.address = ''0xAB'', Token.decimals = 18, Token.symbol = ''AAA'',
            balanceError = None\<rparr>"

definition tokCD :: Token where
  "tokCD = \<lparr>Token.address = ''0xCD'', Token.decimals = 6, Token.symbol = ''CCC'',
            balanceError = None\<rparr>"

text \<open>A host that has armed no timer yet.\<close>

definition sampleHost :: host where
  "sampleHost = \<lparr>pending = [], fresh = 1\<rparr>"

definition sampleAssetsState :: AssetsState where
  "sampleAssetsState = \<lparr>collectibles = [cAB5], ignoredCollectibles = [], ignoredTokens = []\<rparr>"

section \<open>Notions used to state the properties\<close>

text \<open>
  A tracked collectible \<open>c\<close> is reported by the item \<open>r\<close> of the marketplace response
  when the comparison of the pass's filter holds for them.
\<close>

definition reportedBy :: "world \<Rightarrow> ApiCollectibleResponse \<Rightarrow> Collectible \<Rightarrow> bool" where
  "reportedBy w r c =
     (strictEquals (tokenId c) (Number w (token_id r))
      \<and> Collectible.address c = toChecksumAddress w (asset_contract r))"

definition reportedByAny :: "world \<Rightarrow> ApiCollectibleResponse list \<Rightarrow> Collectible \<Rightarrow> bool" where
  "reportedByAny w rs c = list_ex (\<lambda>r. reportedBy w r c) rs"

text \<open>
  The reported items for which \<open>addCollectible\<close> is called, with their positions, and
  whether all the promises of these calls resolve.
\<close>

definition waitingAdds ::
  "world \<Rightarrow> Collectible list \<Rightarrow> ApiCollectibleResponse list \<Rightarrow> (nat \<times> ApiCollectibleResponse) list" where
  "waitingAdds w ignoredCs rs =
     filter (\<lambda>ir. ignoredCollectible w ignoredCs (snd ir) = None) (enumerate 0 rs)"

definition allAddsResolve ::
  "world \<Rightarrow> Collectible list \<Rightarrow> ApiCollectibleResponse list \<Rightarrow> bool" where
  "allAddsResolve w ignoredCs rs =
     list_all (\<lambda>ir. snd (addCollectibleSettles w (fst ir))) (waitingAdds w ignoredCs rs)"

text \<open>
  The outcome of the balance call of the token pass: the call is made with the
  selected address and the candidates computed from the tracked tokens.
\<close>

definition fetchedBalances ::
  "world \<Rightarrow> AssetsDetectionController \<Rightarrow> error + (string \<times> int) list" where
  "fetchedBalances w c =
     getAssetContractBalancesInSingleCall w (AssetsDetectionConfig.selectedAddress (config c))
       (tokensToDetect w
          (filter (\<lambda>token. Token.address token \<noteq> []) (AssetsDetectionConfig.tokens (config c))))"

text \<open>
  The tracked tokens of the store after the events of a pass, given what the store's
  \<open>addTokens\<close> does to them. No other callback of the controller concerns tokens.
\<close>

fun trackedTokensAfter ::
  "(Token list \<Rightarrow> Token list \<Rightarrow> Token list) \<Rightarrow> event list \<Rightarrow> Token list \<Rightarrow> Token list" where
  "trackedTokensAfter addTokensEffect [] tracked = tracked"
| "trackedTokensAfter addTokensEffect (AddTokens tokensToAdd # events) tracked =
     trackedTokensAfter addTokensEffect events (addTokensEffect tokensToAdd tracked)"
| "trackedTokensAfter addTokensEffect (e # events) tracked =
     trackedTokensAfter addTokensEffect events tracked"

section \<open>Properties of TokenBalancesController\<close>

lemma updateBalancesLoop_tokens:
  "fst (updateBalancesLoop g sel ts m) =
     map (\<lambda>t. t\<lparr>balanceError := recordedError g sel (Token.address t)\<rparr>) ts"
  by (induction ts arbitrary: m)
     (simp_all add: recordedError_def split_beta split: sum.splits)

lemma updateBalancesLoop_other:
  "a \<notin> Token.address ` set ts \<Longrightarrow> snd (updateBalancesLoop g sel ts m) a = m a"
  by (induction ts arbitrary: m) (auto simp: split_beta split: sum.splits)

lemma updateBalancesLoop_entry:
  "a \<in> Token.address ` set ts \<Longrightarrow>
     snd (updateBalancesLoop g sel ts m) a = Some (recordedBalance g sel a)"
proof (induction ts arbitrary: m)
  case Nil
  then show ?case by simp
next
  case (Cons t ts)
  show ?case
  proof (cases "a \<in> Token.address ` set ts")
    case True
    then show ?thesis
      using Cons.IH by (simp add: split_beta split: sum.splits)
  next
    case False
    with Cons.prems have a: "a = Token.address t" by auto
    show ?thesis
      using updateBalancesLoop_other [OF False, of g sel] a
      by (simp add: recordedBalance_def split_beta split: sum.splits)
  qed
qed

lemma updateBalancesLoop_dom:
  "dom (snd (updateBalancesLoop g sel ts m)) = dom m \<union> Token.address ` set ts"
proof (rule set_eqI)
  fix a
  show "a \<in> dom (snd (updateBalancesLoop g sel ts m)) \<longleftrightarrow> a \<in> dom m \<union> Token.address ` set ts"
  proof (cases "a \<in> Token.address ` set ts")
    case True
    then show ?thesis
      using updateBalancesLoop_entry [OF True, of g sel m] by (simp add: domIff)
  next
    case False
    then show ?thesis
      using updateBalancesLoop_other [OF False, of g sel m] by (simp add: domIff)
  qed
qed

text \<open>
  C10. When the controller is enabled, \<open>updateBalances\<close> leaves a \<open>contractBalances\<close>
  map whose keys are exactly the addresses of the configured tokens. A token whose
  fetch throws is recorded with the number 0 and gets the thrown value as its
  \<open>balanceError\<close>; every other token is recorded with the fetched balance and gets
  \<open>balanceError\<close> null. This holds for every token of the list, whatever happened to
  the tokens before it.
\<close>

theorem updateBalances_records_every_token:
  assumes "\<not> TokenBalancesConfig.disabled (TokenBalancesController.config c)"
  shows "dom (contractBalances (updateBalances g c)) = Token.address ` set (TokenBalancesConfig.tokens (TokenBalancesController.config c))
    \<and> (\<forall>t \<in> set (TokenBalancesConfig.tokens (TokenBalancesController.config c)).
          contractBalances (updateBalances g c) (Token.address t) =
            Some (case g (Token.address t) (TokenBalancesController.selectedAddress c) of
                    Inl e \<Rightarrow> JsNumber 0 | Inr b \<Rightarrow> BN b))
    \<and> TokenBalancesConfig.tokens (TokenBalancesController.config (updateBalances g c)) =
        map (\<lambda>t. t\<lparr>balanceError :=
                      (case g (Token.address t) (TokenBalancesController.selectedAddress c) of
                         Inl e \<Rightarrow> Some e | Inr b \<Rightarrow> None)\<rparr>)
            (TokenBalancesConfig.tokens (TokenBalancesController.config c))"
proof -
  obtain ts' m where loop:
    "updateBalancesLoop g (TokenBalancesController.selectedAddress c) (TokenBalancesConfig.tokens (TokenBalancesController.config c)) Map.empty = (ts', m)"
    by (cases "updateBalancesLoop g (TokenBalancesController.selectedAddress c) (TokenBalancesConfig.tokens (TokenBalancesController.config c)) Map.empty")
  have m: "m = snd (updateBalancesLoop g (TokenBalancesController.selectedAddress c) (TokenBalancesConfig.tokens (TokenBalancesController.config c)) Map.empty)"
    and ts': "ts' = fst (updateBalancesLoop g (TokenBalancesController.selectedAddress c) (TokenBalancesConfig.tokens (TokenBalancesController.config c)) Map.empty)"
    by (simp_all add: loop)
  have upd: "contractBalances (updateBalances g c) = m"
    "TokenBalancesConfig.tokens (TokenBalancesController.config (updateBalances g c)) = ts'"
    using assms by (simp_all add: updateBalances_def loop)
  have "dom m = Token.address ` set (TokenBalancesConfig.tokens (TokenBalancesController.config c))"
    unfolding m by (simp add: updateBalancesLoop_dom)
  moreover have "\<forall>t \<in> set (TokenBalancesConfig.tokens (TokenBalancesController.config c)).
      m (Token.address t) =
        Some (case g (Token.address t) (TokenBalancesController.selectedAddress c) of
                Inl e \<Rightarrow> JsNumber 0 | Inr b \<Rightarrow> BN b)"
    unfolding m by (simp add: updateBalancesLoop_entry recordedBalance_def)
  moreover have "ts' = map (\<lambda>t. t\<lparr>balanceError :=
                      (case g (Token.address t) (TokenBalancesController.selectedAddress c) of
                         Inl e \<Rightarrow> Some e | Inr b \<Rightarrow> None)\<rparr>)
            (TokenBalancesConfig.tokens (TokenBalancesController.config c))"
    unfolding ts' by (simp add: updateBalancesLoop_tokens recordedError_def)
  ultimately show ?thesis
    by (simp only: upd)
qed


theorem updateBalances_records_every_token_witness:
  "\<not> TokenBalancesConfig.disabled (TokenBalancesController.config sampleBalancesController)
   \<and> contractBalances (updateBalances sampleGetBalance sampleBalancesController) ''0xCD''
       = Some (JsNumber 0)
   \<and> contractBalances (updateBalances sampleGetBalance sampleBalancesController) ''0xAB''
       = Some (BN 7)
   \<and> map balanceError
         (TokenBalancesConfig.tokens
            (TokenBalancesController.config
               (updateBalances sampleGetBalance sampleBalancesController)))
       = [Some (Thrown ''revert''), None]"
  using updateBalances_records_every_token [of sampleBalancesController sampleGetBalance]
  by (simp add: sampleBalancesController_def sampleGetBalance_def)

section \<open>Properties of ComposableController\<close>

lemma Object_entries_one: "Object_entries [x] = [(''0'', x)]"
  by (simp add: Object_entries_def ToString.simps)

text \<open>
  C9. The constructor does not key the composed state by the names of the children:
  \<open>Object.entries\<close> of the array pairs each child with its index, so the state of a
  single child named \<open>PreferencesController\<close> is stored under \<open>0\<close> and nothing
  is stored under its name. When the child then publishes a new state, the listener
  stores it under the name, and the entry under \<open>0\<close> keeps the old state; \<open>flatState\<close>
  is keyed by the index as well.
\<close>

theorem composed_state_keyed_by_index:
  "ComposableController.state (ComposableController_new
       [\<lparr>ChildController.name = ''PreferencesController'', ChildController.state = (1::nat)\<rparr>])
     ''PreferencesController'' = None
   \<and> ComposableController.state (ComposableController_new
         [\<lparr>ChildController.name = ''PreferencesController'', ChildController.state = (1::nat)\<rparr>])
       ''0'' = Some 1
   \<and> ComposableController.state (childPublishes 0 2 (ComposableController_new
         [\<lparr>ChildController.name = ''PreferencesController'', ChildController.state = (1::nat)\<rparr>]))
       ''PreferencesController'' = Some 2
   \<and> ComposableController.state (childPublishes 0 2 (ComposableController_new
         [\<lparr>ChildController.name = ''PreferencesController'', ChildController.state = (1::nat)\<rparr>]))
       ''0'' = Some 1
   \<and> flatState (childPublishes 0 2 (ComposableController_new
         [\<lparr>ChildController.name = ''PreferencesController'', ChildController.state = (1::nat)\<rparr>]))
       ''0'' = Some 2
   \<and> flatState (childPublishes 0 2 (ComposableController_new
         [\<lparr>ChildController.name = ''PreferencesController'', ChildController.state = (1::nat)\<rparr>]))
       ''PreferencesController'' = None"
  by (simp add: ComposableController_new_def initialState_def childPublishes_def update_def
        flatState_def Object_entries_one)

section \<open>Properties of the collectible pass\<close>

lemma withoutReported_filter:
  "withoutReported w r cs = filter (\<lambda>c. \<not> reportedBy w r c) cs"
  by (simp add: withoutReported_def reportedBy_def)

lemma mapCollectibles_calls:
  "fst (mapCollectibles w ign irs rem) =
     map (\<lambda>ir. addCollectibleCall w (snd ir))
       (filter (\<lambda>ir. ignoredCollectible w ign (snd ir) = None) irs)"
  by (induction w ign irs rem rule: mapCollectibles.induct)
     (simp_all add: split_beta split: option.splits)

lemma mapCollectibles_waiting:
  "fst (snd (mapCollectibles w ign irs rem)) =
     filter (\<lambda>ir. ignoredCollectible w ign (snd ir) = None) irs"
  by (induction w ign irs rem rule: mapCollectibles.induct)
     (simp_all add: split_beta split: option.splits)

lemma mapCollectibles_toRemove:
  "snd (snd (mapCollectibles w ign irs rem)) =
     filter (\<lambda>c. \<not> (\<exists>ir \<in> set irs. ignoredCollectible w ign (snd ir) \<noteq> None
                            \<and> reportedBy w (snd ir) c)) rem"
proof (induction w ign irs rem rule: mapCollectibles.induct)
  case (1 w ign rem)
  then show ?case by simp
next
  case (2 w ign i r rest rem)
  show ?case
  proof (cases "ignoredCollectible w ign r")
    case None
    then show ?thesis
      using "2.IH"(1) [OF None] by (simp add: split_beta)
  next
    case (Some ignored)
    then show ?thesis
      using "2.IH"(2) [OF Some]
      by (auto simp: withoutReported_filter intro: filter_cong)
  qed
qed

lemma settleAdds_result:
  "snd (settleAdds w ps rem) =
     (if \<forall>p \<in> set ps. snd (addCollectibleSettles w (fst p))
      then Some (filter (\<lambda>c. \<not> (\<exists>p \<in> set ps. reportedBy w (snd p) c)) rem)
      else None)"
proof (induction w ps rem rule: settleAdds.induct)
  case (1 w rem)
  then show ?case by simp
next
  case (2 w i r rest rem)
  show ?case
  proof (cases "snd (addCollectibleSettles w i)")
    case True
    then show ?thesis
      using "2.IH" by (auto simp: split_beta withoutReported_filter intro: filter_cong)
  next
    case False
    then show ?thesis by simp
  qed
qed

lemma settleAdds_events:
  "e \<in> set (fst (settleAdds w ps rem)) \<Longrightarrow> \<not> isRemoveCollectible e \<and> \<not> isAddCollectible e"
  by (induction w ps rem rule: settleAdds.induct) (auto simp: split_beta split: if_splits)

lemma settleAdds_resolved:
  "\<forall>p \<in> set ps. snd (addCollectibleSettles w (fst p)) \<Longrightarrow>
     fst (settleAdds w ps rem) = map (\<lambda>p. AddCollectibleResolved (fst p)) ps"
  by (induction w ps rem rule: settleAdds.induct) (auto simp: split_beta)

lemma set_settlingOrder [simp]: "set (settlingOrder w ps) = set ps"
  by (simp add: settlingOrder_def)

lemma reportedByAny_iff: "reportedByAny w rs c \<longleftrightarrow> (\<exists>r \<in> set rs. reportedBy w r c)"
  by (simp add: reportedByAny_def list_ex_iff)

lemma snd_set_enumerate: "snd ` set (enumerate n xs) = set xs"
  by (induction xs arbitrary: n) auto

lemma map_snd_filter_enumerate:
  "map snd (filter (\<lambda>ir. P (snd ir)) (enumerate n xs)) = filter P xs"
  by (induction xs arbitrary: n) auto

lemma reported_split:
  "(\<exists>r \<in> set rs. reportedBy w r x) \<longleftrightarrow>
     (\<exists>p \<in> set (waitingAdds w ign rs). reportedBy w (snd p) x)
     \<or> (\<exists>ir \<in> set (enumerate 0 rs). ignoredCollectible w ign (snd ir) \<noteq> None
                                      \<and> reportedBy w (snd ir) x)"
proof -
  have "(\<exists>r \<in> set rs. reportedBy w r x) \<longleftrightarrow>
        (\<exists>r \<in> snd ` set (enumerate 0 rs). reportedBy w r x)"
    by (simp only: snd_set_enumerate)
  also have "\<dots> \<longleftrightarrow> (\<exists>ir \<in> set (enumerate 0 rs). reportedBy w (snd ir) x)"
    by simp
  finally have e: "(\<exists>r \<in> set rs. reportedBy w r x) \<longleftrightarrow>
      (\<exists>ir \<in> set (enumerate 0 rs). reportedBy w (snd ir) x)" .
  have mem: "\<And>ir. ir \<in> set (waitingAdds w ign rs) \<longleftrightarrow>
      ir \<in> set (enumerate 0 rs) \<and> ignoredCollectible w ign (snd ir) = None"
    by (simp add: waitingAdds_def)
  show ?thesis
    unfolding e using mem by blast
qed

text \<open>
  The list that is left to remove once every waiting callback has run its filter: the
  tracked collectibles that no reported item matches, whatever the settling order.
\<close>

lemma toRemove_final:
  "filter (\<lambda>x. \<not> (\<exists>p \<in> set (settlingOrder w (waitingAdds w ign rs)). reportedBy w (snd p) x))
     (snd (snd (mapCollectibles w ign (enumerate 0 rs) tracked)))
   = filter (\<lambda>x. \<not> reportedByAny w rs x) tracked"
  unfolding mapCollectibles_toRemove filter_filter reportedByAny_iff set_settlingOrder
  by (rule filter_cong [OF refl]) (use reported_split [of rs w _ ign] in blast)

lemma allAddsResolve_iff:
  "allAddsResolve w ign rs \<longleftrightarrow>
     (\<forall>p \<in> set (settlingOrder w (waitingAdds w ign rs)). snd (addCollectibleSettles w (fst p)))"
  by (simp add: allAddsResolve_def list_all_iff)

text \<open>The events of the pass when the gates are open and the response has been read.\<close>

lemma detectCollectibles_run:
  assumes "isMainnet c" and "AssetsDetectionConfig.selectedAddress (config c) \<noteq> []"
    and "getOwnerCollectibles w c = Inr (Some rs)"
  shows "detectCollectibles w c =
     map (\<lambda>ir. addCollectibleCall w (snd ir))
       (waitingAdds w (ignoredCollectibles (assetsState c)) rs)
     @ fst (settleAdds w (settlingOrder w (waitingAdds w (ignoredCollectibles (assetsState c)) rs))
              (snd (snd (mapCollectibles w (ignoredCollectibles (assetsState c))
                           (enumerate 0 rs) (collectibles (assetsState c))))))
     @ (if allAddsResolve w (ignoredCollectibles (assetsState c)) rs
        then map removeCollectibleCall
               (filter (\<lambda>x. \<not> reportedByAny w rs x) (collectibles (assetsState c)))
        else [])"
proof -
  let ?ign = "ignoredCollectibles (assetsState c)"
  let ?m = "mapCollectibles w ?ign (enumerate 0 rs) (collectibles (assetsState c))"
  let ?s = "settleAdds w (settlingOrder w (waitingAdds w ?ign rs)) (snd (snd ?m))"
  have waiting: "fst (snd ?m) = waitingAdds w ?ign rs"
    by (simp add: mapCollectibles_waiting waitingAdds_def)
  have calls: "fst ?m = map (\<lambda>ir. addCollectibleCall w (snd ir)) (waitingAdds w ?ign rs)"
    by (simp add: mapCollectibles_calls waitingAdds_def)
  have s: "snd ?s =
     (if allAddsResolve w ?ign rs
      then Some (filter (\<lambda>x. \<not> reportedByAny w rs x) (collectibles (assetsState c)))
      else None)"
    unfolding settleAdds_result allAddsResolve_iff toRemove_final ..
  have "fst (detectCollectiblesOperation w c) =
     fst ?m @ fst ?s @ (case snd ?s of None \<Rightarrow> [] | Some xs \<Rightarrow> map removeCollectibleCall xs)"
    by (simp add: detectCollectiblesOperation_def assms(3) split_beta waiting
             split: option.splits)
  also have "\<dots> = fst ?m @ fst ?s @
     (if allAddsResolve w ?ign rs
      then map removeCollectibleCall
             (filter (\<lambda>x. \<not> reportedByAny w rs x) (collectibles (assetsState c)))
      else [])"
    by (simp only: s) simp
  finally show ?thesis
    using assms(1,2) by (simp only: detectCollectibles_def safelyExecute_def calls if_True if_False not_True_eq_False not_False_eq_True)
qed

lemma detectCollectibles_gated:
  "\<not> isMainnet c \<or> AssetsDetectionConfig.selectedAddress (config c) = [] \<Longrightarrow>
     detectCollectibles w c = []"
  by (auto simp: detectCollectibles_def)

lemma detectCollectibles_unread:
  "getOwnerCollectibles w c = Inl e \<or> getOwnerCollectibles w c = Inr None \<Longrightarrow>
     detectCollectibles w c = []"
  by (auto simp: detectCollectibles_def detectCollectiblesOperation_def safelyExecute_def)

lemma isRemoveCollectible_addCall [simp]: "\<not> isRemoveCollectible (addCollectibleCall w r)"
  by (simp add: addCollectibleCall_def)

lemma isAddCollectible_addCall [simp]: "isAddCollectible (addCollectibleCall w r)"
  by (simp add: addCollectibleCall_def)

lemma isRemoveCollectible_removeCall [simp]: "isRemoveCollectible (removeCollectibleCall x)"
  by (simp add: removeCollectibleCall_def)

lemma isAddCollectible_removeCall [simp]: "\<not> isAddCollectible (removeCollectibleCall x)"
  by (simp add: removeCollectibleCall_def)

lemma filter_none: "(\<And>e. e \<in> set xs \<Longrightarrow> \<not> P e) \<Longrightarrow> filter P xs = []"
  by (induction xs) auto

lemma filter_all: "(\<And>e. e \<in> set xs \<Longrightarrow> P e) \<Longrightarrow> filter P xs = xs"
  by (induction xs) auto

subsection \<open>Evaluating the pass on the samples\<close>

lemmas sample_defs =
  sampleWorld_def sampleController_def sampleConfig_def reported_def sampleInfo_def
  sampleRegistry_def upcaseHex_def decimalNumber_def cAB5_def cEF9_def marketplaceReports_def

lemmas collectible_defs =
  detectCollectibles_def detectCollectiblesOperation_def safelyExecute_def isMainnet_def
  MAINNET_def getOwnerCollectibles_def tryFetch_def ignoredCollectible_def
  addCollectibleCall_def withoutReported_def settlingOrder_def removeCollectibleCall_def
  strictEquals_def waitingAdds_def allAddsResolve_def reportedByAny_def reportedBy_def

lemma run_reported_tracked:
  "detectCollectibles (sampleWorld (marketplaceReports [reported ''0xab'' ''5'']) (Inr []) False)
     (sampleController [cAB5] [] [])
   = [AddCollectible ''0xab'' (Num 5) sampleInfo True, AddCollectibleResolved 0]"
  by (simp add: sample_defs collectible_defs)

lemma run_one_gone:
  "detectCollectibles (sampleWorld (marketplaceReports [reported ''0xab'' ''5'']) (Inr []) False)
     (sampleController [cAB5, cEF9] [] [])
   = [AddCollectible ''0xab'' (Num 5) sampleInfo True, AddCollectibleResolved 0,
      RemoveCollectible ''0xEF'' (Num 9)]"
  by (simp add: sample_defs collectible_defs)

lemma run_reversed:
  "detectCollectibles
     (sampleWorld (marketplaceReports [reported ''0xab'' ''5'', reported ''0xcd'' ''7''])
        (Inr []) True)
     (sampleController [cAB5, cEF9] [] [])
   = [AddCollectible ''0xab'' (Num 5) sampleInfo True,
      AddCollectible ''0xcd'' (Num 7) sampleInfo True,
      AddCollectibleResolved 1, AddCollectibleResolved 0,
      RemoveCollectible ''0xEF'' (Num 9)]"
  by (simp add: sample_defs collectible_defs)

lemma run_fetch_failed:
  "detectCollectibles (sampleWorld (Inl (Thrown ''timeout'')) (Inr []) False)
     (sampleController [cAB5, cEF9] [] [])
   = [RemoveCollectible ''0xAB'' (Num 5), RemoveCollectible ''0xEF'' (Num 9)]"
  by (simp add: sample_defs collectible_defs)

lemma run_body_unreadable:
  "detectCollectibles
     (sampleWorld (Inr (Response (Inl (Thrown ''SyntaxError'')))) (Inr []) False)
     (sampleController [cAB5, cEF9] [] [])
   = []"
  by (simp add: sample_defs collectible_defs)

lemma run_add_rejected:
  "detectCollectibles
     ((sampleWorld (marketplaceReports [reported ''0xab'' ''5'']) (Inr []) False)
        \<lparr>addCollectibleSettles := (\<lambda>i. (i, False))\<rparr>)
     (sampleController [cAB5, cEF9] [] [])
   = [AddCollectible ''0xab'' (Num 5) sampleInfo True, AddCollectibleRejected 0]"
  by (simp add: sample_defs collectible_defs)

lemma run_ignored_tracked:
  "detectCollectibles (sampleWorld (marketplaceReports [reported ''0xab'' ''5'']) (Inr []) False)
     (sampleController [cAB5] [cAB5] [])
   = []"
  by (simp add: sample_defs collectible_defs)

lemma run_ignored_untracked:
  "detectCollectibles (sampleWorld (marketplaceReports [reported ''0xab'' ''5'']) (Inr []) False)
     (sampleController [] [cAB5] [])
   = []"
  by (simp add: sample_defs collectible_defs)

subsection \<open>Tombstone removal\<close>

text \<open>
  C1, as the code has it. With the gates open:
  \<^item> when the marketplace response has been read and every \<open>addCollectible\<close> promise of
    the pass resolves, \<open>removeCollectible\<close> is called for exactly the collectibles of
    the snapshot that no reported item matches, in the order of the snapshot;
  \<^item> when the fetch itself fails (the \<open>try\<close> block of \<open>getOwnerCollectibles\<close> throws),
    the pass goes on as with an empty response, and \<open>removeCollectible\<close> is called for
    every tracked collectible;
  \<^item> when reading the body of the response throws, the pass makes no call at all.
\<close>

theorem tombstone_removals:
  assumes "isMainnet c" and "AssetsDetectionConfig.selectedAddress (config c) \<noteq> []"
  shows "(getOwnerCollectibles w c = Inr (Some rs)
            \<longrightarrow> allAddsResolve w (ignoredCollectibles (assetsState c)) rs
            \<longrightarrow> filter isRemoveCollectible (detectCollectibles w c)
                = map removeCollectibleCall
                    (filter (\<lambda>x. \<not> reportedByAny w rs x) (collectibles (assetsState c))))
       \<and> (tryFetch w (getOwnerCollectiblesApi (AssetsDetectionConfig.selectedAddress (config c)))
              = Inl e
            \<longrightarrow> detectCollectibles w c
                = map removeCollectibleCall (collectibles (assetsState c)))
       \<and> (tryFetch w (getOwnerCollectiblesApi (AssetsDetectionConfig.selectedAddress (config c)))
              = Inr (Response (Inl e'))
            \<longrightarrow> detectCollectibles w c = [])"
proof (intro conjI impI)
  let ?ign = "ignoredCollectibles (assetsState c)"
  assume rs: "getOwnerCollectibles w c = Inr (Some rs)" and ok: "allAddsResolve w ?ign rs"
  let ?settled = "fst (settleAdds w (settlingOrder w (waitingAdds w ?ign rs))
                    (snd (snd (mapCollectibles w ?ign (enumerate 0 rs)
                                 (collectibles (assetsState c))))))"
  have "filter isRemoveCollectible ?settled = []"
    by (rule filter_none) (simp add: settleAdds_events)
  moreover have "filter isRemoveCollectible
      (map (\<lambda>ir. addCollectibleCall w (snd ir)) (waitingAdds w ?ign rs)) = []"
    by (rule filter_none) auto
  moreover have "filter isRemoveCollectible
      (map removeCollectibleCall
         (filter (\<lambda>x. \<not> reportedByAny w rs x) (collectibles (assetsState c))))
    = map removeCollectibleCall
         (filter (\<lambda>x. \<not> reportedByAny w rs x) (collectibles (assetsState c)))"
    by (rule filter_all) auto
  ultimately show "filter isRemoveCollectible (detectCollectibles w c)
      = map removeCollectibleCall
          (filter (\<lambda>x. \<not> reportedByAny w rs x) (collectibles (assetsState c)))"
    by (simp add: detectCollectibles_run [OF assms rs] ok)
next
  assume "tryFetch w (getOwnerCollectiblesApi (AssetsDetectionConfig.selectedAddress (config c)))
            = Inl e"
  then have empty: "getOwnerCollectibles w c = Inr (Some [])"
    by (simp add: getOwnerCollectibles_def)
  show "detectCollectibles w c = map removeCollectibleCall (collectibles (assetsState c))"
    by (simp add: detectCollectibles_run [OF assms empty] waitingAdds_def allAddsResolve_def
          settlingOrder_def reportedByAny_def)
next
  assume "tryFetch w (getOwnerCollectiblesApi (AssetsDetectionConfig.selectedAddress (config c)))
            = Inr (Response (Inl e'))"
  then have "getOwnerCollectibles w c = Inl e'"
    by (simp add: getOwnerCollectibles_def)
  then show "detectCollectibles w c = []"
    by (simp add: detectCollectibles_unread)
qed

theorem tombstone_removals_witness:
  "isMainnet (sampleController [cAB5, cEF9] [] [])
   \<and> AssetsDetectionConfig.selectedAddress (config (sampleController [cAB5, cEF9] [] [])) = ''0x11''
   \<and> getOwnerCollectibles
        (sampleWorld (marketplaceReports [reported ''0xab'' ''5'']) (Inr []) False)
        (sampleController [cAB5, cEF9] [] [])
       = Inr (Some [reported ''0xab'' ''5''])
   \<and> allAddsResolve (sampleWorld (marketplaceReports [reported ''0xab'' ''5'']) (Inr []) False)
        [] [reported ''0xab'' ''5'']
   \<and> filter isRemoveCollectible
        (detectCollectibles
           (sampleWorld (marketplaceReports [reported ''0xab'' ''5'']) (Inr []) False)
           (sampleController [cAB5, cEF9] [] []))
       = [RemoveCollectible ''0xEF'' (Num 9)]
   \<and> tryFetch (sampleWorld (Inl (Thrown ''timeout'')) (Inr []) False)
        (getOwnerCollectiblesApi ''0x11'') = Inl (Thrown ''timeout'')
   \<and> detectCollectibles (sampleWorld (Inl (Thrown ''timeout'')) (Inr []) False)
        (sampleController [cAB5, cEF9] [] [])
       = [RemoveCollectible ''0xAB'' (Num 5), RemoveCollectible ''0xEF'' (Num 9)]
   \<and> tryFetch (sampleWorld (Inr (Response (Inl (Thrown ''SyntaxError'')))) (Inr []) False)
        (getOwnerCollectiblesApi ''0x11'') = Inr (Response (Inl (Thrown ''SyntaxError'')))
   \<and> detectCollectibles
        (sampleWorld (Inr (Response (Inl (Thrown ''SyntaxError'')))) (Inr []) False)
        (sampleController [cAB5, cEF9] [] [])
       = []"
  using
    tombstone_removals [of "sampleController [cAB5, cEF9] [] []"
      "sampleWorld (marketplaceReports [reported ''0xab'' ''5'']) (Inr []) False"
      "[reported ''0xab'' ''5'']"]
    tombstone_removals [of "sampleController [cAB5, cEF9] [] []"
      "sampleWorld (Inl (Thrown ''timeout'')) (Inr []) False" _ "Thrown ''timeout''"]
    tombstone_removals [of "sampleController [cAB5, cEF9] [] []"
      "sampleWorld (Inr (Response (Inl (Thrown ''SyntaxError'')))) (Inr []) False" _ _
      "Thrown ''SyntaxError''"]
  by (simp add: sample_defs collectible_defs)

text \<open>
  The statement of the spec fails on two inputs: a fetch that times out has every
  tracked collectible removed, and a rejected \<open>addCollectible\<close> promise leaves a
  collectible that is no longer reported in place.
\<close>

theorem fetch_failure_removes_all_counterexample:
  "tryFetch (sampleWorld (Inl (Thrown ''timeout'')) (Inr []) False)
      (getOwnerCollectiblesApi ''0x11'') = Inl (Thrown ''timeout'')
   \<and> detectCollectibles (sampleWorld (Inl (Thrown ''timeout'')) (Inr []) False)
        (sampleController [cAB5, cEF9] [] [])
       = [RemoveCollectible ''0xAB'' (Num 5), RemoveCollectible ''0xEF'' (Num 9)]
   \<and> detectCollectibles
        ((sampleWorld (marketplaceReports [reported ''0xab'' ''5'']) (Inr []) False)
           \<lparr>addCollectibleSettles := (\<lambda>i. (i, False))\<rparr>)
        (sampleController [cAB5, cEF9] [] [])
       = [AddCollectible ''0xab'' (Num 5) sampleInfo True, AddCollectibleRejected 0]"
  using run_fetch_failed run_add_rejected
  by (simp add: sample_defs tryFetch_def)

subsection \<open>Additions\<close>

lemma removeCollectibleCall_inj:
  "removeCollectibleCall x = removeCollectibleCall y \<Longrightarrow> x = y"
  by (simp add: removeCollectibleCall_def)

lemma removal_in_run:
  assumes "isMainnet c" and "AssetsDetectionConfig.selectedAddress (config c) \<noteq> []"
    and "getOwnerCollectibles w c = Inr (Some rs)"
    and "removeCollectibleCall x \<in> set (detectCollectibles w c)"
  shows "x \<in> set (collectibles (assetsState c)) \<and> \<not> reportedByAny w rs x"
proof -
  let ?ign = "ignoredCollectibles (assetsState c)"
  from assms(4) consider
      (call) "removeCollectibleCall x
                \<in> set (map (\<lambda>ir. addCollectibleCall w (snd ir)) (waitingAdds w ?ign rs))"
    | (settled) "removeCollectibleCall x
                \<in> set (fst (settleAdds w (settlingOrder w (waitingAdds w ?ign rs))
                          (snd (snd (mapCollectibles w ?ign (enumerate 0 rs)
                                       (collectibles (assetsState c)))))))"
    | (removal) "removeCollectibleCall x
                \<in> set (map removeCollectibleCall
                          (filter (\<lambda>x. \<not> reportedByAny w rs x) (collectibles (assetsState c))))"
    unfolding detectCollectibles_run [OF assms(1-3)] by (auto split: if_splits)
  then show ?thesis
  proof cases
    case call
    then obtain ir where "removeCollectibleCall x = addCollectibleCall w (snd ir)" by auto
    then have "isRemoveCollectible (addCollectibleCall w (snd ir))"
      by (metis isRemoveCollectible_removeCall)
    then show ?thesis by simp
  next
    case settled
    then show ?thesis
      using settleAdds_events isRemoveCollectible_removeCall by blast
  next
    case removal
    then obtain y where y: "y \<in> set (collectibles (assetsState c))" "\<not> reportedByAny w rs y"
      and "removeCollectibleCall x = removeCollectibleCall y" by auto
    then show ?thesis
      using removeCollectibleCall_inj by blast
  qed
qed

lemma additions_in_run:
  assumes "isMainnet c" and "AssetsDetectionConfig.selectedAddress (config c) \<noteq> []"
    and "getOwnerCollectibles w c = Inr (Some rs)"
  shows "filter isAddCollectible (detectCollectibles w c)
    = map (addCollectibleCall w)
        (filter (\<lambda>r. ignoredCollectible w (ignoredCollectibles (assetsState c)) r = None) rs)"
proof -
  let ?ign = "ignoredCollectibles (assetsState c)"
  let ?settled = "fst (settleAdds w (settlingOrder w (waitingAdds w ?ign rs))
                    (snd (snd (mapCollectibles w ?ign (enumerate 0 rs)
                                 (collectibles (assetsState c))))))"
  let ?calls = "map (\<lambda>ir. addCollectibleCall w (snd ir)) (waitingAdds w ?ign rs)"
  let ?removals = "map removeCollectibleCall
         (filter (\<lambda>x. \<not> reportedByAny w rs x) (collectibles (assetsState c)))"
  have "filter isAddCollectible ?settled = []"
    by (rule filter_none) (simp add: settleAdds_events)
  moreover have "filter isAddCollectible ?calls = ?calls"
    by (rule filter_all) auto
  moreover have "filter isAddCollectible ?removals = []"
    by (rule filter_none) auto
  moreover have "?calls = map (addCollectibleCall w)
        (filter (\<lambda>r. ignoredCollectible w ?ign r = None) rs)"
  proof -
    have "map snd (waitingAdds w ?ign rs) = filter (\<lambda>r. ignoredCollectible w ?ign r = None) rs"
      unfolding waitingAdds_def
      by (rule map_snd_filter_enumerate [of "\<lambda>r. ignoredCollectible w ?ign r = None" 0 rs])
    moreover have "?calls = map (addCollectibleCall w) (map snd (waitingAdds w ?ign rs))"
      by (simp add: comp_def)
    ultimately show ?thesis
      by (simp only:)
  qed
  ultimately show ?thesis
    by (simp add: detectCollectibles_run [OF assms])
qed

text \<open>
  C2, as the code has it. With the gates open and the response read, the pass calls
  \<open>addCollectible\<close> once for every reported item that is not ignored, in the order of
  the response, whether or not the item is already tracked: the calls depend on the
  response and on the ignore list only, not on what the store tracks, so a second run
  on an unchanged response repeats them. A tracked collectible that a reported item
  matches is never removed, and when every tracked collectible is matched the pass
  makes no \<open>removeCollectible\<close> call.
\<close>

theorem additions_do_not_consult_tracked:
  assumes "isMainnet c" and "AssetsDetectionConfig.selectedAddress (config c) \<noteq> []"
    and "getOwnerCollectibles w c = Inr (Some rs)"
  shows "filter isAddCollectible (detectCollectibles w c)
           = map (addCollectibleCall w)
               (filter (\<lambda>r. ignoredCollectible w (ignoredCollectibles (assetsState c)) r = None) rs)
       \<and> filter isAddCollectible
           (detectCollectibles w (c\<lparr>assetsState := (assetsState c)\<lparr>collectibles := tracked'\<rparr>\<rparr>))
           = filter isAddCollectible (detectCollectibles w c)
       \<and> (\<forall>x \<in> set (collectibles (assetsState c)).
             reportedByAny w rs x \<longrightarrow> removeCollectibleCall x \<notin> set (detectCollectibles w c))
       \<and> ((\<forall>x \<in> set (collectibles (assetsState c)). reportedByAny w rs x)
             \<longrightarrow> filter isRemoveCollectible (detectCollectibles w c) = [])"
proof (intro conjI ballI impI)
  show "filter isAddCollectible (detectCollectibles w c)
           = map (addCollectibleCall w)
               (filter (\<lambda>r. ignoredCollectible w (ignoredCollectibles (assetsState c)) r = None) rs)"
    by (rule additions_in_run [OF assms])
next
  let ?c' = "c\<lparr>assetsState := (assetsState c)\<lparr>collectibles := tracked'\<rparr>\<rparr>"
  have "isMainnet ?c'" "AssetsDetectionConfig.selectedAddress (config ?c') \<noteq> []"
    "getOwnerCollectibles w ?c' = Inr (Some rs)"
    using assms by (simp_all add: isMainnet_def getOwnerCollectibles_def)
  from additions_in_run [OF this] additions_in_run [OF assms]
  show "filter isAddCollectible (detectCollectibles w ?c')
           = filter isAddCollectible (detectCollectibles w c)"
    by simp
next
  fix x
  assume "x \<in> set (collectibles (assetsState c))" and "reportedByAny w rs x"
  then show "removeCollectibleCall x \<notin> set (detectCollectibles w c)"
    using removal_in_run [OF assms] by blast
next
  assume all: "\<forall>x \<in> set (collectibles (assetsState c)). reportedByAny w rs x"
  show "filter isRemoveCollectible (detectCollectibles w c) = []"
  proof (rule filter_none)
    fix e
    assume e: "e \<in> set (detectCollectibles w c)"
    show "\<not> isRemoveCollectible e"
    proof
      assume "isRemoveCollectible e"
      then obtain a n where "e = RemoveCollectible a n" by (cases e) auto
      then have "e = removeCollectibleCall \<lparr>Collectible.address = a, tokenId = n\<rparr>"
        by (simp add: removeCollectibleCall_def)
      with e removal_in_run [OF assms] all show False by metis
    qed
  qed
qed

theorem additions_do_not_consult_tracked_witness:
  "isMainnet (sampleController [cAB5] [] [])
   \<and> AssetsDetectionConfig.selectedAddress (config (sampleController [cAB5] [] [])) = ''0x11''
   \<and> getOwnerCollectibles
        (sampleWorld (marketplaceReports [reported ''0xab'' ''5'']) (Inr []) False)
        (sampleController [cAB5] [] [])
       = Inr (Some [reported ''0xab'' ''5''])
   \<and> reportedByAny (sampleWorld (marketplaceReports [reported ''0xab'' ''5'']) (Inr []) False)
        [reported ''0xab'' ''5''] cAB5
   \<and> filter isAddCollectible
        (detectCollectibles
           (sampleWorld (marketplaceReports [reported ''0xab'' ''5'']) (Inr []) False)
           (sampleController [cAB5] [] []))
       = [AddCollectible ''0xab'' (Num 5) sampleInfo True]
   \<and> filter isRemoveCollectible
        (detectCollectibles
           (sampleWorld (marketplaceReports [reported ''0xab'' ''5'']) (Inr []) False)
           (sampleController [cAB5] [] []))
       = []"
  using additions_do_not_consult_tracked [of "sampleController [cAB5] [] []"
      "sampleWorld (marketplaceReports [reported ''0xab'' ''5'']) (Inr []) False"
      "[reported ''0xab'' ''5'']"]
  by (simp add: sample_defs collectible_defs)

text \<open>
  The scenario of the spec: \<open>(0xAB, 5)\<close> is tracked and the marketplace reports
  \<open>0xab\<close> with token id \<open>5\<close>. The pass calls \<open>addCollectible\<close> all the same.
\<close>

theorem tracked_item_added_again_counterexample:
  "detectCollectibles (sampleWorld (marketplaceReports [reported ''0xab'' ''5'']) (Inr []) False)
     (sampleController [cAB5] [] [])
   = [AddCollectible ''0xab'' (Num 5) sampleInfo True, AddCollectibleResolved 0]"
  by (rule run_reported_tracked)

subsection \<open>Ignored collectibles\<close>

lemma ignoredCollectible_None_iff:
  "ignoredCollectible w ign r = None \<longleftrightarrow>
     \<not> (\<exists>x \<in> set ign. Collectible.address x = toChecksumAddress w (asset_contract r)
                       \<and> strictEquals (tokenId x) (Number w (token_id r)))"
  by (auto simp: ignoredCollectible_def find_None_iff)

lemma detectCollectibles_nonempty:
  assumes "detectCollectibles w c \<noteq> []"
  shows "isMainnet c \<and> AssetsDetectionConfig.selectedAddress (config c) \<noteq> []
         \<and> (\<exists>rs. getOwnerCollectibles w c = Inr (Some rs))"
proof -
  have gates: "isMainnet c \<and> AssetsDetectionConfig.selectedAddress (config c) \<noteq> []"
    using assms detectCollectibles_gated [of c w] by blast
  have "\<exists>rs. getOwnerCollectibles w c = Inr (Some rs)"
  proof (cases "getOwnerCollectibles w c")
    case (Inl e)
    then show ?thesis using assms detectCollectibles_unread [of w c e] by simp
  next
    case (Inr assets)
    then show ?thesis
      using assms detectCollectibles_unread [of w c] by (cases assets) auto
  qed
  with gates show ?thesis by simp
qed

lemma addition_in_run:
  assumes "AddCollectible a n info d \<in> set (detectCollectibles w c)"
  shows "\<exists>r. ignoredCollectible w (ignoredCollectibles (assetsState c)) r = None
             \<and> a = asset_contract r \<and> n = Number w (token_id r)"
proof -
  let ?ign = "ignoredCollectibles (assetsState c)"
  from assms have "detectCollectibles w c \<noteq> []" by auto
  then obtain rs where gates: "isMainnet c"
      "AssetsDetectionConfig.selectedAddress (config c) \<noteq> []"
    and rs: "getOwnerCollectibles w c = Inr (Some rs)"
    using detectCollectibles_nonempty by blast
  have "AddCollectible a n info d \<in> set (filter isAddCollectible (detectCollectibles w c))"
    using assms by simp
  then have "AddCollectible a n info d
      \<in> set (map (addCollectibleCall w) (filter (\<lambda>r. ignoredCollectible w ?ign r = None) rs))"
    by (simp only: additions_in_run [OF gates rs])
  then obtain r where "ignoredCollectible w ?ign r = None"
      and "AddCollectible a n info d = addCollectibleCall w r"
    by auto
  then show ?thesis
    by (auto simp: addCollectibleCall_def)
qed

text \<open>
  C4, as the code has it. No \<open>addCollectible\<close> call of the pass is for a pair that the
  ignore list holds: the checksum form of the address in the call and the id in the
  call never match an ignored collectible, so an ignored pair is not added, tracked
  or not. A reported item that is ignored is nevertheless taken out of the removal
  candidates, like every reported item, by the end of the \<open>map\<close> over the response: a
  tracked collectible that it matches is not removed by the pass.
\<close>

theorem ignored_items_not_added:
  "(\<forall>a n info d. AddCollectible a n info d \<in> set (detectCollectibles w c) \<longrightarrow>
       \<not> list_ex (\<lambda>x. Collectible.address x = toChecksumAddress w a \<and> strictEquals (tokenId x) n)
            (ignoredCollectibles (assetsState c)))
   \<and> (isMainnet c \<and> AssetsDetectionConfig.selectedAddress (config c) \<noteq> []
        \<and> getOwnerCollectibles w c = Inr (Some rs) \<and> r \<in> set rs
        \<and> ignoredCollectible w (ignoredCollectibles (assetsState c)) r \<noteq> None \<longrightarrow>
         (\<forall>x \<in> set (snd (snd (mapCollectibles w (ignoredCollectibles (assetsState c))
                                 (enumerate 0 rs) (collectibles (assetsState c))))).
              \<not> reportedBy w r x)
       \<and> (\<forall>x \<in> set (collectibles (assetsState c)).
              reportedBy w r x \<longrightarrow> removeCollectibleCall x \<notin> set (detectCollectibles w c)))"
proof (intro conjI allI impI ballI)
  fix a n info d
  assume "AddCollectible a n info d \<in> set (detectCollectibles w c)"
  then obtain r' where "ignoredCollectible w (ignoredCollectibles (assetsState c)) r' = None"
      and "a = asset_contract r'" and "n = Number w (token_id r')"
    using addition_in_run by blast
  then show "\<not> list_ex (\<lambda>x. Collectible.address x = toChecksumAddress w a
                              \<and> strictEquals (tokenId x) n)
                (ignoredCollectibles (assetsState c))"
    by (simp add: ignoredCollectible_None_iff list_ex_iff)
next
  fix x
  assume h: "isMainnet c \<and> AssetsDetectionConfig.selectedAddress (config c) \<noteq> []
        \<and> getOwnerCollectibles w c = Inr (Some rs) \<and> r \<in> set rs
        \<and> ignoredCollectible w (ignoredCollectibles (assetsState c)) r \<noteq> None"
    and x: "x \<in> set (snd (snd (mapCollectibles w (ignoredCollectibles (assetsState c))
                                 (enumerate 0 rs) (collectibles (assetsState c)))))"
  from h have "r \<in> snd ` set (enumerate 0 rs)"
    by (simp only: snd_set_enumerate)
  then obtain ir where "ir \<in> set (enumerate 0 rs)" and "snd ir = r" by auto
  with h x show "\<not> reportedBy w r x"
    unfolding mapCollectibles_toRemove by auto
next
  fix x
  assume h: "isMainnet c \<and> AssetsDetectionConfig.selectedAddress (config c) \<noteq> []
        \<and> getOwnerCollectibles w c = Inr (Some rs) \<and> r \<in> set rs
        \<and> ignoredCollectible w (ignoredCollectibles (assetsState c)) r \<noteq> None"
    and "x \<in> set (collectibles (assetsState c))" and "reportedBy w r x"
  then have "reportedByAny w rs x"
    by (auto simp: reportedByAny_iff)
  then show "removeCollectibleCall x \<notin> set (detectCollectibles w c)"
    using h removal_in_run [of c w rs x] by blast
qed

theorem ignored_items_not_added_witness:
  "isMainnet (sampleController [cAB5] [cAB5] [])
   \<and> AssetsDetectionConfig.selectedAddress (config (sampleController [cAB5] [cAB5] [])) = ''0x11''
   \<and> getOwnerCollectibles
        (sampleWorld (marketplaceReports [reported ''0xab'' ''5'']) (Inr []) False)
        (sampleController [cAB5] [cAB5] [])
       = Inr (Some [reported ''0xab'' ''5''])
   \<and> ignoredCollectible
        (sampleWorld (marketplaceReports [reported ''0xab'' ''5'']) (Inr []) False)
        [cAB5] (reported ''0xab'' ''5'') = Some cAB5
   \<and> reportedBy (sampleWorld (marketplaceReports [reported ''0xab'' ''5'']) (Inr []) False)
        (reported ''0xab'' ''5'') cAB5
   \<and> removeCollectibleCall cAB5
        \<notin> set (detectCollectibles
                 (sampleWorld (marketplaceReports [reported ''0xab'' ''5'']) (Inr []) False)
                 (sampleController [cAB5] [cAB5] []))
   \<and> detectCollectibles
        (sampleWorld (marketplaceReports [reported ''0xab'' ''5'']) (Inr []) False)
        (sampleController [] [cAB5] [])
       = []
   \<and> detectCollectibles
        (sampleWorld (marketplaceReports [reported ''0xab'' ''5'', reported ''0xcd'' ''7''])
           (Inr []) False)
        (sampleController [] [cAB5] [])
       = [AddCollectible ''0xcd'' (Num 7) sampleInfo True, AddCollectibleResolved 1]"
  using ignored_items_not_added [of
      "sampleWorld (marketplaceReports [reported ''0xab'' ''5'']) (Inr []) False"
      "sampleController [cAB5] [cAB5] []" "[reported ''0xab'' ''5'']" "reported ''0xab'' ''5''"]
  by (simp add: sample_defs collectible_defs)

text \<open>
  The statement of the spec fails where the ignored pair is also tracked: the
  reported item leaves the removal candidates although it is ignored.
\<close>

theorem ignored_item_leaves_candidates_counterexample:
  "ignoredCollectible (sampleWorld (marketplaceReports [reported ''0xab'' ''5'']) (Inr []) False)
      [cAB5] (reported ''0xab'' ''5'') = Some cAB5
   \<and> snd (snd (mapCollectibles
                 (sampleWorld (marketplaceReports [reported ''0xab'' ''5'']) (Inr []) False)
                 [cAB5] (enumerate 0 [reported ''0xab'' ''5'']) [cAB5]))
       = []
   \<and> detectCollectibles (sampleWorld (marketplaceReports [reported ''0xab'' ''5'']) (Inr []) False)
        (sampleController [cAB5] [cAB5] [])
       = []"
  by (simp add: sample_defs collectible_defs)

subsection \<open>Order of additions and removals\<close>

text \<open>
  C7. The events of a collectible pass split into a first part without any
  \<open>removeCollectible\<close> call and a second part of \<open>removeCollectible\<close> calls only, so
  no addition follows a removal. When the pass removes anything, the first part holds
  every \<open>addCollectible\<close> call of the pass, one per reported item that is not ignored,
  and the resolution of the promise of each of them, in whatever order the promises
  settle.
\<close>

theorem removals_follow_additions:
  "\<exists>before removals.
      detectCollectibles w c = before @ removals
    \<and> (\<forall>e \<in> set before. \<not> isRemoveCollectible e)
    \<and> (\<forall>e \<in> set removals. isRemoveCollectible e)
    \<and> (removals \<noteq> [] \<longrightarrow>
         (\<exists>rs. getOwnerCollectibles w c = Inr (Some rs)
            \<and> filter isAddCollectible before
                = map (\<lambda>ir. addCollectibleCall w (snd ir))
                    (waitingAdds w (ignoredCollectibles (assetsState c)) rs)
            \<and> (\<forall>ir \<in> set (waitingAdds w (ignoredCollectibles (assetsState c)) rs).
                  AddCollectibleResolved (fst ir) \<in> set before)))"
proof (cases "detectCollectibles w c = []")
  case True
  then show ?thesis by simp
next
  case False
  let ?ign = "ignoredCollectibles (assetsState c)"
  from False obtain rs where gates: "isMainnet c"
      "AssetsDetectionConfig.selectedAddress (config c) \<noteq> []"
    and rs: "getOwnerCollectibles w c = Inr (Some rs)"
    using detectCollectibles_nonempty by blast
  let ?order = "settlingOrder w (waitingAdds w ?ign rs)"
  let ?calls = "map (\<lambda>ir. addCollectibleCall w (snd ir)) (waitingAdds w ?ign rs)"
  let ?settled = "fst (settleAdds w ?order
                    (snd (snd (mapCollectibles w ?ign (enumerate 0 rs)
                                 (collectibles (assetsState c))))))"
  let ?removals = "if allAddsResolve w ?ign rs
        then map removeCollectibleCall
               (filter (\<lambda>x. \<not> reportedByAny w rs x) (collectibles (assetsState c)))
        else []"
  have run: "detectCollectibles w c = (?calls @ ?settled) @ ?removals"
    by (simp add: detectCollectibles_run [OF gates rs])
  have before: "\<forall>e \<in> set (?calls @ ?settled). \<not> isRemoveCollectible e"
    using settleAdds_events by auto
  have removals: "\<forall>e \<in> set ?removals. isRemoveCollectible e"
    by auto
  have calls: "filter isAddCollectible (?calls @ ?settled) = ?calls"
  proof -
    have "filter isAddCollectible ?settled = []"
      by (rule filter_none) (simp add: settleAdds_events)
    moreover have "filter isAddCollectible ?calls = ?calls"
      by (rule filter_all) auto
    ultimately show ?thesis by simp
  qed
  have resolved: "\<forall>ir \<in> set (waitingAdds w ?ign rs).
      AddCollectibleResolved (fst ir) \<in> set (?calls @ ?settled)" if "?removals \<noteq> []"
  proof -
    from that have "allAddsResolve w ?ign rs" by (simp split: if_splits)
    then have "?settled = map (\<lambda>p. AddCollectibleResolved (fst p)) ?order"
      by (simp add: settleAdds_resolved allAddsResolve_iff)
    then show ?thesis by simp
  qed
  show ?thesis
    using run before removals calls resolved rs by blast
qed

theorem removals_follow_additions_witness:
  "\<exists>before removals.
      detectCollectibles
        (sampleWorld (marketplaceReports [reported ''0xab'' ''5'', reported ''0xcd'' ''7''])
           (Inr []) True)
        (sampleController [cAB5, cEF9] [] [])
      = before @ removals
    \<and> before = [AddCollectible ''0xab'' (Num 5) sampleInfo True,
                 AddCollectible ''0xcd'' (Num 7) sampleInfo True,
                 AddCollectibleResolved 1, AddCollectibleResolved 0]
    \<and> removals = [RemoveCollectible ''0xEF'' (Num 9)]"
  using removals_follow_additions [of
      "sampleWorld (marketplaceReports [reported ''0xab'' ''5'', reported ''0xcd'' ''7''])
         (Inr []) True"
      "sampleController [cAB5, cEF9] [] []"]
    run_reversed
  by simp

section \<open>Properties of the token pass\<close>

lemma ignoredToken_None_iff:
  "ignoredToken w ign a = None \<longleftrightarrow> toChecksumAddress w a \<notin> Token.address ` set ign"
  by (auto simp: ignoredToken_def find_None_iff image_iff)

lemma stageTokens_addresses:
  "stageTokens w ign as acc = Inr toks \<Longrightarrow>
     map Token.address toks
       = map Token.address acc @ filter (\<lambda>a. ignoredToken w ign a = None) as"
  by (induction w ign as acc arbitrary: toks rule: stageTokens.induct)
     (auto split: option.splits)

lemma stageTokens_metadata:
  "stageTokens w ign as acc = Inr toks \<Longrightarrow> t \<in> set toks \<Longrightarrow> t \<notin> set acc \<Longrightarrow>
     \<exists>contract. map_of (contractMap w) (Token.address t) = Some contract
        \<and> Token.decimals t = ContractMetadata.decimals contract
        \<and> Token.symbol t = ContractMetadata.symbol contract"
proof (induction w ign as acc arbitrary: toks rule: stageTokens.induct)
  case (1 w ign acc)
  then show ?case by simp
next
  case (2 w ign a rest acc)
  show ?case
  proof (cases "ignoredToken w ign a")
    case (Some ignored)
    then show ?thesis
      using "2.IH"(2) [OF Some] "2.prems" by simp
  next
    case None
    with "2.prems"(1) obtain contract where contract: "map_of (contractMap w) a = Some contract"
      by (auto split: option.splits)
    let ?new = "\<lparr>Token.address = a, decimals = ContractMetadata.decimals contract,
                 symbol = ContractMetadata.symbol contract, balanceError = None\<rparr>"
    from "2.prems"(1) None contract
    have run: "stageTokens w ign rest (acc @ [?new]) = Inr toks"
      by simp
    show ?thesis
    proof (cases "t \<in> set (acc @ [?new])")
      case True
      with "2.prems"(3) have "t = ?new" by simp
      with contract show ?thesis by simp
    next
      case False
      show ?thesis
        using "2.IH"(1) [OF None contract run "2.prems"(2) False] .
    qed
  qed
qed

lemma stageTokens_completes:
  "\<forall>a \<in> set as. ignoredToken w ign a = None \<longrightarrow> map_of (contractMap w) a \<noteq> None \<Longrightarrow>
     \<exists>toks. stageTokens w ign as acc = Inr toks"
  by (induction w ign as acc rule: stageTokens.induct) (auto split: option.splits)

lemma detectTokens_cases:
  "detectTokens w c =
     (if \<not> isMainnet c \<or> AssetsDetectionConfig.selectedAddress (config c) = [] then []
      else case fetchedBalances w c of
             Inl e \<Rightarrow> []
           | Inr balances \<Rightarrow>
               (case stageTokens w (ignoredTokens (assetsState c)) (map fst balances) [] of
                  Inl e \<Rightarrow> []
                | Inr toks \<Rightarrow> if toks \<noteq> [] then [AddTokens toks] else []))"
  by (simp add: detectTokens_def detectTokensOperation_def safelyExecute_def fetchedBalances_def
        Let_def split: sum.splits)

lemma detectTokens_shape:
  "detectTokens w c = [] \<or> (\<exists>toks. toks \<noteq> [] \<and> detectTokens w c = [AddTokens toks])"
  by (simp add: detectTokens_cases split: sum.splits)

lemma detectTokens_AddTokens:
  assumes "AddTokens toks \<in> set (detectTokens w c)"
  shows "isMainnet c \<and> AssetsDetectionConfig.selectedAddress (config c) \<noteq> []
     \<and> (\<exists>balances. fetchedBalances w c = Inr balances
           \<and> stageTokens w (ignoredTokens (assetsState c)) (map fst balances) [] = Inr toks)"
proof -
  have gates: "isMainnet c" "AssetsDetectionConfig.selectedAddress (config c) \<noteq> []"
    using assms by (auto simp: detectTokens_cases split: if_splits)
  obtain balances where b: "fetchedBalances w c = Inr balances"
    using assms gates by (cases "fetchedBalances w c") (auto simp: detectTokens_cases)
  obtain staged where s:
    "stageTokens w (ignoredTokens (assetsState c)) (map fst balances) [] = Inr staged"
    using assms gates b
    by (cases "stageTokens w (ignoredTokens (assetsState c)) (map fst balances) []")
       (auto simp: detectTokens_cases)
  have "staged = toks"
    using assms gates b s by (auto simp: detectTokens_cases split: if_splits)
  with gates b s show ?thesis by simp
qed

subsection \<open>Evaluating the pass on the samples\<close>

lemmas token_defs =
  detectTokens_def detectTokensOperation_def safelyExecute_def isMainnet_def MAINNET_def
  tokensToDetect_def ignoredToken_def hasProperty_def fetchedBalances_def tokAB_def tokCD_def

lemma run_tokens_one_ignored:
  "detectTokens (sampleWorld (Inl (Thrown ''timeout'')) (Inr [(''0xAB'', 3), (''0xCD'', 100)]) False)
     (sampleController [] [] [tokCD])
   = [AddTokens [tokAB]]"
  by (simp add: sample_defs token_defs)

lemma run_tokens_zero_balance:
  "detectTokens (sampleWorld (Inl (Thrown ''timeout'')) (Inr [(''0xCD'', 0)]) False)
     (sampleController [] [] [])
   = [AddTokens [tokCD]]"
  by (simp add: sample_defs token_defs)

subsection \<open>Staging\<close>

text \<open>
  C3, as the code has it. Every token that the pass hands to \<open>addTokens\<close> has an
  address that is a key of the balance map the fetcher returned and whose checksum
  form is not the address of an ignored token, and carries the decimals and the symbol
  of the registry: an ignored address is never added, nor is an address that the map
  does not list. Conversely, when the gates are open, the balance call returns and the
  registry knows every key that is not ignored, each such key is staged, in the order
  of the map, and the staged tokens are added in one call. The pass does not look at
  the balances themselves: the fetcher is relied upon to list non-zero balances only.
\<close>

theorem staged_tokens_characterized:
  "(\<forall>toks. AddTokens toks \<in> set (detectTokens w c) \<longrightarrow>
      (\<exists>balances. fetchedBalances w c = Inr balances
         \<and> (\<forall>t \<in> set toks.
               Token.address t \<in> fst ` set balances
             \<and> toChecksumAddress w (Token.address t)
                 \<notin> Token.address ` set (ignoredTokens (assetsState c))
             \<and> (\<exists>contract. map_of (contractMap w) (Token.address t) = Some contract
                   \<and> Token.decimals t = ContractMetadata.decimals contract
                   \<and> Token.symbol t = ContractMetadata.symbol contract))))
   \<and> (isMainnet c \<and> AssetsDetectionConfig.selectedAddress (config c) \<noteq> []
        \<and> fetchedBalances w c = Inr balances
        \<and> (\<forall>k \<in> fst ` set balances.
              toChecksumAddress w k \<notin> Token.address ` set (ignoredTokens (assetsState c))
              \<longrightarrow> map_of (contractMap w) k \<noteq> None)
        \<and> a \<in> fst ` set balances
        \<and> toChecksumAddress w a \<notin> Token.address ` set (ignoredTokens (assetsState c))
      \<longrightarrow> (\<exists>toks. detectTokens w c = [AddTokens toks]
             \<and> a \<in> Token.address ` set toks
             \<and> map Token.address toks
                 = filter (\<lambda>k. toChecksumAddress w k
                                 \<notin> Token.address ` set (ignoredTokens (assetsState c)))
                     (map fst balances)))"
proof (intro conjI allI impI)
  fix toks
  let ?ign = "ignoredTokens (assetsState c)"
  assume "AddTokens toks \<in> set (detectTokens w c)"
  then obtain balances where b: "fetchedBalances w c = Inr balances"
    and s: "stageTokens w ?ign (map fst balances) [] = Inr toks"
    using detectTokens_AddTokens by blast
  have addresses: "map Token.address toks
      = filter (\<lambda>k. toChecksumAddress w k \<notin> Token.address ` set ?ign) (map fst balances)"
    using stageTokens_addresses [OF s] by (simp add: ignoredToken_None_iff)
  have "\<forall>t \<in> set toks.
               Token.address t \<in> fst ` set balances
             \<and> toChecksumAddress w (Token.address t) \<notin> Token.address ` set ?ign
             \<and> (\<exists>contract. map_of (contractMap w) (Token.address t) = Some contract
                   \<and> Token.decimals t = ContractMetadata.decimals contract
                   \<and> Token.symbol t = ContractMetadata.symbol contract)"
  proof
    fix t
    assume t: "t \<in> set toks"
    then have "Token.address t \<in> set (map Token.address toks)" by simp
    then have "Token.address t \<in> set (map fst balances)
        \<and> toChecksumAddress w (Token.address t) \<notin> Token.address ` set ?ign"
      by (simp only: addresses set_filter) simp
    moreover have "\<exists>contract. map_of (contractMap w) (Token.address t) = Some contract
                   \<and> Token.decimals t = ContractMetadata.decimals contract
                   \<and> Token.symbol t = ContractMetadata.symbol contract"
      using stageTokens_metadata [OF s t] by simp
    ultimately show "Token.address t \<in> fst ` set balances
             \<and> toChecksumAddress w (Token.address t) \<notin> Token.address ` set ?ign
             \<and> (\<exists>contract. map_of (contractMap w) (Token.address t) = Some contract
                   \<and> Token.decimals t = ContractMetadata.decimals contract
                   \<and> Token.symbol t = ContractMetadata.symbol contract)"
      by simp
  qed
  with b show "\<exists>balances. fetchedBalances w c = Inr balances
         \<and> (\<forall>t \<in> set toks.
               Token.address t \<in> fst ` set balances
             \<and> toChecksumAddress w (Token.address t) \<notin> Token.address ` set ?ign
             \<and> (\<exists>contract. map_of (contractMap w) (Token.address t) = Some contract
                   \<and> Token.decimals t = ContractMetadata.decimals contract
                   \<and> Token.symbol t = ContractMetadata.symbol contract))"
    by blast
next
  let ?ign = "ignoredTokens (assetsState c)"
  assume h: "isMainnet c \<and> AssetsDetectionConfig.selectedAddress (config c) \<noteq> []
        \<and> fetchedBalances w c = Inr balances
        \<and> (\<forall>k \<in> fst ` set balances.
              toChecksumAddress w k \<notin> Token.address ` set ?ign
              \<longrightarrow> map_of (contractMap w) k \<noteq> None)
        \<and> a \<in> fst ` set balances
        \<and> toChecksumAddress w a \<notin> Token.address ` set ?ign"
  then have "\<forall>k \<in> set (map fst balances).
      ignoredToken w ?ign k = None \<longrightarrow> map_of (contractMap w) k \<noteq> None"
    by (simp add: ignoredToken_None_iff)
  then obtain toks where s: "stageTokens w ?ign (map fst balances) [] = Inr toks"
    using stageTokens_completes by blast
  have addresses: "map Token.address toks
      = filter (\<lambda>k. toChecksumAddress w k \<notin> Token.address ` set ?ign) (map fst balances)"
    using stageTokens_addresses [OF s] by (simp add: ignoredToken_None_iff)
  from h have "a \<in> set (filter (\<lambda>k. toChecksumAddress w k \<notin> Token.address ` set ?ign)
                          (map fst balances))"
    by simp
  then have a: "a \<in> Token.address ` set toks"
    by (simp only: addresses [symmetric]) simp
  then have "toks \<noteq> []" by auto
  then have "detectTokens w c = [AddTokens toks]"
    using h s by (simp add: detectTokens_cases)
  with a addresses
  show "\<exists>toks. detectTokens w c = [AddTokens toks]
             \<and> a \<in> Token.address ` set toks
             \<and> map Token.address toks
                 = filter (\<lambda>k. toChecksumAddress w k \<notin> Token.address ` set ?ign)
                     (map fst balances)"
    by blast
qed

theorem staged_tokens_characterized_witness:
  "isMainnet (sampleController [] [] [tokCD])
   \<and> AssetsDetectionConfig.selectedAddress (config (sampleController [] [] [tokCD])) = ''0x11''
   \<and> fetchedBalances
        (sampleWorld (Inl (Thrown ''timeout'')) (Inr [(''0xAB'', 3), (''0xCD'', 100)]) False)
        (sampleController [] [] [tokCD])
       = Inr [(''0xAB'', 3), (''0xCD'', 100)]
   \<and> upcaseHex ''0xAB'' \<notin> Token.address ` set [tokCD]
   \<and> upcaseHex ''0xCD'' \<in> Token.address ` set [tokCD]
   \<and> map_of sampleRegistry ''0xAB'' \<noteq> None
   \<and> detectTokens
        (sampleWorld (Inl (Thrown ''timeout'')) (Inr [(''0xAB'', 3), (''0xCD'', 100)]) False)
        (sampleController [] [] [tokCD])
       = [AddTokens [tokAB]]"
  using staged_tokens_characterized [of
      "sampleWorld (Inl (Thrown ''timeout'')) (Inr [(''0xAB'', 3), (''0xCD'', 100)]) False"
      "sampleController [] [] [tokCD]" "[(''0xAB'', 3), (''0xCD'', 100)]" "''0xAB''"]
  by (simp add: sample_defs token_defs)

text \<open>
  The statement of the spec fails when the balance map lists an address with the
  balance zero: the address is staged and added.
\<close>

theorem zero_balance_staged_counterexample:
  "fetchedBalances (sampleWorld (Inl (Thrown ''timeout'')) (Inr [(''0xCD'', 0)]) False)
      (sampleController [] [] [])
     = Inr [(''0xCD'', 0)]
   \<and> detectTokens (sampleWorld (Inl (Thrown ''timeout'')) (Inr [(''0xCD'', 0)]) False)
        (sampleController [] [] [])
       = [AddTokens [tokCD]]"
  by (simp add: sample_defs token_defs)

subsection \<open>No removal of tokens\<close>

lemma trackedTokensAfter_keeps:
  assumes "\<forall>toks ts. Token.address ` set ts \<subseteq> Token.address ` set (addTokensEffect toks ts)"
  shows "Token.address ` set tracked
           \<subseteq> Token.address ` set (trackedTokensAfter addTokensEffect events tracked)"
proof (induction events arbitrary: tracked)
  case Nil
  show ?case by simp
next
  case (Cons e events)
  show ?case
  proof (cases e)
    case (AddTokens toks)
    have "Token.address ` set tracked \<subseteq> Token.address ` set (addTokensEffect toks tracked)"
      using assms by blast
    also have "\<dots> \<subseteq> Token.address `
        set (trackedTokensAfter addTokensEffect events (addTokensEffect toks tracked))"
      by (rule Cons.IH)
    finally show ?thesis
      by (simp add: AddTokens)
  qed (simp_all add: Cons.IH)
qed

text \<open>
  C8. The token pass makes no call but \<open>addTokens\<close>, and at most one: its events are
  either none or a single \<open>addTokens\<close> call with the staged tokens, and none of them is
  a removal. So, whatever the balances read, every address the store tracks before
  the pass is tracked after it, provided the store's own \<open>addTokens\<close> drops none.
\<close>

theorem token_pass_only_adds:
  "(detectTokens w c = [] \<or> (\<exists>toks. toks \<noteq> [] \<and> detectTokens w c = [AddTokens toks]))
   \<and> (\<forall>e \<in> set (detectTokens w c). \<not> isRemoveCollectible e)
   \<and> ((\<forall>toks ts. Token.address ` set ts \<subseteq> Token.address ` set (addTokensEffect toks ts))
        \<longrightarrow> Token.address ` set tracked
             \<subseteq> Token.address ` set (trackedTokensAfter addTokensEffect (detectTokens w c) tracked))"
proof (intro conjI impI)
  show shape: "detectTokens w c = [] \<or> (\<exists>toks. toks \<noteq> [] \<and> detectTokens w c = [AddTokens toks])"
    by (rule detectTokens_shape)
  then show "\<forall>e \<in> set (detectTokens w c). \<not> isRemoveCollectible e"
    by auto
next
  assume "\<forall>toks ts. Token.address ` set ts \<subseteq> Token.address ` set (addTokensEffect toks ts)"
  then show "Token.address ` set tracked
      \<subseteq> Token.address ` set (trackedTokensAfter addTokensEffect (detectTokens w c) tracked)"
    by (rule trackedTokensAfter_keeps)
qed

theorem token_pass_only_adds_witness:
  "detectTokens (sampleWorld (Inl (Thrown ''timeout'')) (Inr [(''0xCD'', 100)]) False)
     (sampleController [] [] [])
     = [AddTokens [tokCD]]
   \<and> trackedTokensAfter (\<lambda>toks ts. ts @ toks)
        (detectTokens (sampleWorld (Inl (Thrown ''timeout'')) (Inr [(''0xCD'', 100)]) False)
           (sampleController [] [] []))
        [tokAB]
       = [tokAB, tokCD]
   \<and> Token.address ` set [tokAB] \<subseteq> Token.address ` set [tokAB, tokCD]
   \<and> (\<forall>toks ts. Token.address ` set ts \<subseteq> Token.address ` set (ts @ toks))"
  using token_pass_only_adds [of
      "sampleWorld (Inl (Thrown ''timeout'')) (Inr [(''0xCD'', 100)]) False"
      "sampleController [] [] []" "\<lambda>toks ts. ts @ toks" "[tokAB]"]
  by (simp add: sample_defs token_defs image_Un)

section \<open>Address comparisons\<close>

text \<open>
  C5, as the code has it. The ignore-list tests of the two passes and the matching of
  the removal candidates put the fetched address into checksum form and compare it
  with the stored address as it stands. Two spellings of a fetched address that have
  the same checksum form are therefore treated alike; and where the stored addresses
  are in checksum form, each comparison is the comparison of the checksum forms of
  its two sides. (The exclusion of tracked tokens from the candidates is left out.)
\<close>

theorem comparisons_normalize_fetched_address:
  "(toChecksumAddress w a = toChecksumAddress w b \<longrightarrow>
        ignoredToken w ignoredTs a = ignoredToken w ignoredTs b
      \<and> ignoredCollectible w ignoredCs (r\<lparr>asset_contract := a\<rparr>)
          = ignoredCollectible w ignoredCs (r\<lparr>asset_contract := b\<rparr>)
      \<and> withoutReported w (r\<lparr>asset_contract := a\<rparr>) tracked
          = withoutReported w (r\<lparr>asset_contract := b\<rparr>) tracked)
   \<and> ((\<forall>t \<in> set ignoredTs. toChecksumAddress w (Token.address t) = Token.address t) \<longrightarrow>
        (ignoredToken w ignoredTs a \<noteq> None \<longleftrightarrow>
           (\<exists>t \<in> set ignoredTs.
               toChecksumAddress w (Token.address t) = toChecksumAddress w a)))
   \<and> ((\<forall>x \<in> set ignoredCs. toChecksumAddress w (Collectible.address x) = Collectible.address x)
        \<longrightarrow>
        (ignoredCollectible w ignoredCs r \<noteq> None \<longleftrightarrow>
           (\<exists>x \<in> set ignoredCs.
               toChecksumAddress w (Collectible.address x)
                 = toChecksumAddress w (asset_contract r)
             \<and> strictEquals (tokenId x) (Number w (token_id r)))))
   \<and> ((\<forall>x \<in> set tracked. toChecksumAddress w (Collectible.address x) = Collectible.address x)
        \<longrightarrow>
        withoutReported w r tracked
          = filter (\<lambda>x. \<not> (strictEquals (tokenId x) (Number w (token_id r))
                            \<and> toChecksumAddress w (Collectible.address x)
                                = toChecksumAddress w (asset_contract r)))
              tracked)"
proof (intro conjI impI)
  assume "toChecksumAddress w a = toChecksumAddress w b"
  then show "ignoredToken w ignoredTs a = ignoredToken w ignoredTs b"
    and "ignoredCollectible w ignoredCs (r\<lparr>asset_contract := a\<rparr>)
          = ignoredCollectible w ignoredCs (r\<lparr>asset_contract := b\<rparr>)"
    and "withoutReported w (r\<lparr>asset_contract := a\<rparr>) tracked
          = withoutReported w (r\<lparr>asset_contract := b\<rparr>) tracked"
    by (simp_all add: ignoredToken_def ignoredCollectible_def withoutReported_def)
next
  assume "\<forall>t \<in> set ignoredTs. toChecksumAddress w (Token.address t) = Token.address t"
  then show "ignoredToken w ignoredTs a \<noteq> None \<longleftrightarrow>
           (\<exists>t \<in> set ignoredTs.
               toChecksumAddress w (Token.address t) = toChecksumAddress w a)"
    by (simp add: ignoredToken_None_iff image_iff) metis
next
  assume "\<forall>x \<in> set ignoredCs.
            toChecksumAddress w (Collectible.address x) = Collectible.address x"
  then show "ignoredCollectible w ignoredCs r \<noteq> None \<longleftrightarrow>
           (\<exists>x \<in> set ignoredCs.
               toChecksumAddress w (Collectible.address x)
                 = toChecksumAddress w (asset_contract r)
             \<and> strictEquals (tokenId x) (Number w (token_id r)))"
    by (auto simp: ignoredCollectible_None_iff)
next
  assume "\<forall>x \<in> set tracked.
            toChecksumAddress w (Collectible.address x) = Collectible.address x"
  then show "withoutReported w r tracked
          = filter (\<lambda>x. \<not> (strictEquals (tokenId x) (Number w (token_id r))
                            \<and> toChecksumAddress w (Collectible.address x)
                                = toChecksumAddress w (asset_contract r)))
              tracked"
    unfolding withoutReported_def by (intro filter_cong refl) simp
qed

theorem comparisons_normalize_fetched_address_witness:
  "upcaseHex ''0xcd'' = upcaseHex ''0xCD''
   \<and> upcaseHex (Token.address tokCD) = Token.address tokCD
   \<and> upcaseHex (Collectible.address cAB5) = Collectible.address cAB5
   \<and> upcaseHex (Collectible.address cEF9) = Collectible.address cEF9
   \<and> ignoredToken (sampleWorld (Inl (Thrown ''timeout'')) (Inr []) False) [tokCD] ''0xcd''
       = Some tokCD
   \<and> ignoredToken (sampleWorld (Inl (Thrown ''timeout'')) (Inr []) False) [tokCD] ''0xCD''
       = Some tokCD
   \<and> ignoredCollectible (sampleWorld (Inl (Thrown ''timeout'')) (Inr []) False) [cAB5]
        (reported ''0xab'' ''5'') = Some cAB5
   \<and> withoutReported (sampleWorld (Inl (Thrown ''timeout'')) (Inr []) False)
        (reported ''0xab'' ''5'') [cAB5, cEF9] = [cEF9]"
  using comparisons_normalize_fetched_address [of
      "sampleWorld (Inl (Thrown ''timeout'')) (Inr []) False" "''0xcd''" "''0xCD''"
      "[tokCD]" "[cAB5]" "reported ''0xab'' ''5''" "[cAB5, cEF9]"]
  by (simp add: sample_defs token_defs ignoredCollectible_def withoutReported_def
        strictEquals_def)

text \<open>
  The statement of the spec fails on the stored side, which is never normalized: an
  ignored token stored as \<open>0xcd\<close> does not match the fetched \<open>0xCD\<close>. It fails for the
  candidates too: a tracked token \<open>0xab\<close> does not keep \<open>0xAB\<close> out of them.
\<close>

theorem stored_address_not_normalized_counterexample:
  "upcaseHex ''0xcd'' = upcaseHex ''0xCD''
   \<and> ignoredToken (sampleWorld (Inl (Thrown ''timeout'')) (Inr []) False)
        [tokCD\<lparr>Token.address := ''0xcd''\<rparr>] ''0xCD''
       = None
   \<and> tokensToDetect (sampleWorld (Inl (Thrown ''timeout'')) (Inr []) False)
        [tokAB\<lparr>Token.address := ''0xab''\<rparr>]
       = [''0xAB'', ''0xCD'']"
  by (simp add: sample_defs token_defs ToString.simps)

section \<open>Properties of the scheduler\<close>

lemma configureInterval_handle [simp]: "handle (configureInterval newInterval c) = handle c"
  by (simp add: configureInterval_def split: option.splits)

lemma configureInterval_interval:
  "AssetsDetectionConfig.interval (config (configureInterval newInterval c))
     = (case newInterval of
          None \<Rightarrow> AssetsDetectionConfig.interval (config c)
        | Some i \<Rightarrow> if i \<noteq> 0 then i else AssetsDetectionConfig.interval (config c))"
  by (simp add: configureInterval_def split: option.splits)

lemma poll_state:
  "fst (poll w newInterval (c, h))
     = ((configureInterval newInterval c)\<lparr>handle := Some (fresh h)\<rparr>,
        \<lparr>pending = filter (\<lambda>p. Some (fst p) \<noteq> handle c) (pending h)
                    @ [(fresh h,
                        AssetsDetectionConfig.interval (config (configureInterval newInterval c)))],
         fresh = Suc (fresh h)\<rparr>)"
proof (cases "handle c")
  case None
  then show ?thesis
    by (simp add: poll_def setTimeout_def Let_def)
next
  case (Some t)
  have "filter (\<lambda>(t', delay). t' \<noteq> t) (pending h) = filter (\<lambda>p. Some (fst p) \<noteq> Some t) (pending h)"
    by (intro filter_cong refl) auto
  with Some show ?thesis
    by (simp add: poll_def setTimeout_def clearTimeout_def Let_def)
qed

lemma poll_events:
  "snd (poll w newInterval (c, h)) = detectAssets w (configureInterval newInterval c)"
  by (simp add: poll_def setTimeout_def Let_def split_beta)

text \<open>
  C6, as the code has it. \<open>poll\<close>, which the constructor calls on start and every
  timer calls when it fires, clears the timer of \<open>handle\<close>, runs \<open>detectAssets\<close> (the
  two passes, when the network gate is open) and arms one new timer for the
  configured interval, whatever the passes do: afterwards the old timer is not
  pending, the new one is, and \<open>handle\<close> names it. The account-change listener does
  less: when the selected address differs from the configured one it stores the
  address and runs \<open>detectAssets\<close>, and otherwise it does nothing; in both cases the
  timers of the host and \<open>handle\<close> stay as they are.
\<close>

theorem poll_rearms_account_change_does_not:
  assumes "\<forall>t. handle c = Some t \<longrightarrow> t < fresh h"
  shows "handle (fst (fst (poll w newInterval (c, h)))) = Some (fresh h)
   \<and> (\<forall>t. handle c = Some t \<longrightarrow> t \<notin> fst ` set (pending (snd (fst (poll w newInterval (c, h))))))
   \<and> pending (snd (fst (poll w newInterval (c, h))))
       = filter (\<lambda>p. Some (fst p) \<noteq> handle c) (pending h)
         @ [(fresh h,
             AssetsDetectionConfig.interval (config (fst (fst (poll w newInterval (c, h))))))]
   \<and> AssetsDetectionConfig.interval (config (fst (fst (poll w newInterval (c, h)))))
       = (case newInterval of
            None \<Rightarrow> AssetsDetectionConfig.interval (config c)
          | Some i \<Rightarrow> if i \<noteq> 0 then i else AssetsDetectionConfig.interval (config c))
   \<and> snd (poll w newInterval (c, h)) = detectAssets w (configureInterval newInterval c)
   \<and> AssetsDetectionController_new w initialAssetsState cfg h
       = poll w None (\<lparr>config = cfg, assetsState = initialAssetsState, handle = None\<rparr>, h)
   \<and> snd (fst (onPreferencesStateChange w selected (c, h))) = h
   \<and> handle (fst (fst (onPreferencesStateChange w selected (c, h)))) = handle c
   \<and> (selected \<noteq> AssetsDetectionConfig.selectedAddress (config c) \<longrightarrow>
        fst (fst (onPreferencesStateChange w selected (c, h)))
          = c\<lparr>config := (config c)\<lparr>AssetsDetectionConfig.selectedAddress := selected\<rparr>\<rparr>
      \<and> snd (onPreferencesStateChange w selected (c, h))
          = detectAssets w
              (c\<lparr>config := (config c)\<lparr>AssetsDetectionConfig.selectedAddress := selected\<rparr>\<rparr>))
   \<and> (selected = AssetsDetectionConfig.selectedAddress (config c) \<longrightarrow>
        onPreferencesStateChange w selected (c, h) = ((c, h), []))
   \<and> (fired \<in> fst ` set (pending h) \<longrightarrow>
        timerFires w fired (c, h)
          = poll w (Some (AssetsDetectionConfig.interval (config c))) (c, clearTimeout fired h))"
proof (intro conjI allI impI)
  fix t
  assume "handle c = Some t"
  with assms have "t \<noteq> fresh h" by auto
  with \<open>handle c = Some t\<close>
  show "t \<notin> fst ` set (pending (snd (fst (poll w newInterval (c, h)))))"
    by (auto simp: poll_state)
qed (simp_all add: poll_state poll_events configureInterval_interval
       AssetsDetectionController_new_def onPreferencesStateChange_def timerFires_def Let_def)

theorem poll_rearms_account_change_does_not_witness:
  "fst (AssetsDetectionController_new (sampleWorld (Inl (Thrown ''timeout'')) (Inr []) False)
          sampleAssetsState sampleConfig sampleHost)
     = (\<lparr>config = sampleConfig, assetsState = sampleAssetsState, handle = Some 1\<rparr>,
        \<lparr>pending = [(1, 180000)], fresh = 2\<rparr>)
   \<and> fst (poll (sampleWorld (Inl (Thrown ''timeout'')) (Inr []) False) (Some 5)
            (\<lparr>config = sampleConfig, assetsState = sampleAssetsState, handle = Some 1\<rparr>,
             \<lparr>pending = [(1, 180000)], fresh = 2\<rparr>))
     = (\<lparr>config = sampleConfig\<lparr>AssetsDetectionConfig.interval := 5\<rparr>,
         assetsState = sampleAssetsState, handle = Some 2\<rparr>,
        \<lparr>pending = [(2, 5)], fresh = 3\<rparr>)
   \<and> (1::nat) < fresh \<lparr>pending = [(1, 180000)], fresh = 2\<rparr>
   \<and> ''0x22'' \<noteq> AssetsDetectionConfig.selectedAddress sampleConfig"
  using poll_rearms_account_change_does_not [of
      "\<lparr>config = sampleConfig, assetsState = sampleAssetsState, handle = Some 1\<rparr>"
      "\<lparr>pending = [(1, 180000)], fresh = 2\<rparr>"
      "sampleWorld (Inl (Thrown ''timeout'')) (Inr []) False" "Some 5"]
  by (simp add: AssetsDetectionController_new_def poll_state configureInterval_def
        sampleHost_def sampleConfig_def)

text \<open>
  The statement of the spec fails for the account-change event: after the start has
  armed timer 1, a change of the selected address leaves timer 1 pending, arms no
  timer and keeps \<open>handle\<close>.
\<close>

theorem account_change_keeps_timer_counterexample:
  "fst (AssetsDetectionController_new (sampleWorld (Inl (Thrown ''timeout'')) (Inr []) False)
          sampleAssetsState sampleConfig sampleHost)
     = (\<lparr>config = sampleConfig, assetsState = sampleAssetsState, handle = Some 1\<rparr>,
        \<lparr>pending = [(1, 180000)], fresh = 2\<rparr>)
   \<and> ''0x22'' \<noteq> AssetsDetectionConfig.selectedAddress sampleConfig
   \<and> fst (onPreferencesStateChange (sampleWorld (Inl (Thrown ''timeout'')) (Inr []) False) ''0x22''
            (\<lparr>config = sampleConfig, assetsState = sampleAssetsState, handle = Some 1\<rparr>,
             \<lparr>pending = [(1, 180000)], fresh = 2\<rparr>))
     = (\<lparr>config = sampleConfig\<lparr>AssetsDetectionConfig.selectedAddress := ''0x22''\<rparr>,
         assetsState = sampleAssetsState, handle = Some 1\<rparr>,
        \<lparr>pending = [(1, 180000)], fresh = 2\<rparr>)
   \<and> snd (onPreferencesStateChange (sampleWorld (Inl (Thrown ''timeout'')) (Inr []) False) ''0x22''
            (\<lparr>config = sampleConfig, assetsState = sampleAssetsState, handle = Some 1\<rparr>,
             \<lparr>pending = [(1, 180000)], fresh = 2\<rparr>))
     = [RemoveCollectible ''0xAB'' (Num 5)]"
  by (simp add: AssetsDetectionController_new_def poll_state configureInterval_def
        onPreferencesStateChange_def detectAssets_def sample_defs token_defs collectible_defs
        sampleHost_def sampleAssetsState_def Let_def)

end
